theory Spec2Isabelle
  imports Main
begin

section \<open>Strings and paths\<close>

text \<open>
  Python \<open>str\<close> values are modelled as \<open>string\<close>. The model covers ASCII text: a
  character outside \<open>A\<close>..\<open>Z\<close> has no lower-case form of its own, and the white space
  that \<open>str.strip()\<close> removes is the ASCII white space of \<open>str.isspace()\<close>
  (code points 9 to 13 and 28 to 32).
\<close>

definition lower_char :: "char \<Rightarrow> char" where
  "lower_char c =
     (case map_of (zip ''ABCDEFGHIJKLMNOPQRSTUVWXYZ'' ''abcdefghijklmnopqrstuvwxyz'') c of
        None \<Rightarrow> c
      | Some d \<Rightarrow> d)"

text \<open>\<open>s.lower()\<close>\<close>

definition lower :: "string \<Rightarrow> string" where
  "lower s = map lower_char s"

definition isspace :: "char \<Rightarrow> bool" where
  "isspace c = (c \<in> set [CHR 0x09, CHR 0x0A, CHR 0x0B, CHR 0x0C, CHR 0x0D,
                          CHR 0x1C, CHR 0x1D, CHR 0x1E, CHR 0x1F, CHR 0x20])"

text \<open>\<open>s.strip()\<close>\<close>

definition strip :: "string \<Rightarrow> string" where
  "strip s = rev (dropWhile isspace (rev (dropWhile isspace s)))"

text \<open>\<open>s.startswith(p)\<close> and \<open>s.endswith(p)\<close>\<close>

definition startswith :: "string \<Rightarrow> string \<Rightarrow> bool" where
  "startswith s p = (take (length p) s = p)"

definition endswith :: "string \<Rightarrow> string \<Rightarrow> bool" where
  "endswith s p = (length p \<le> length s \<and> drop (length s - length p) s = p)"

text \<open>\<open>p in s\<close> on strings: \<open>p\<close> occurs in \<open>s\<close> as a contiguous run.\<close>

primrec str_in :: "string \<Rightarrow> string \<Rightarrow> bool" where
  "str_in p [] = (p = [])"
| "str_in p (c # cs) = (startswith (c # cs) p \<or> str_in p cs)"

text \<open>\<open>line.split('#', 1)[0]\<close>: the text before the first occurrence of the separator.\<close>

definition split_first :: "char \<Rightarrow> string \<Rightarrow> string" where
  "split_first sep s = takeWhile (\<lambda>c. c \<noteq> sep) s"

text \<open>
  \<open>s.rfind(c)\<close> for a one-character \<open>c\<close>: the index of the last occurrence, or \<open>-1\<close>.
  The scan runs left to right and remembers the last hit.
\<close>

primrec rfind_from :: "char \<Rightarrow> string \<Rightarrow> int \<Rightarrow> int \<Rightarrow> int" where
  "rfind_from c [] i found = found"
| "rfind_from c (x # xs) i found = rfind_from c xs (i + 1) (if x = c then i else found)"

definition rfind :: "string \<Rightarrow> char \<Rightarrow> int" where
  "rfind s c = rfind_from c s 0 (- 1)"

text \<open>
  \<open>os.path.splitext\<close> (POSIX): the loop of \<open>genericpath._splitext\<close> that skips the
  leading dots of the last path component, then the split itself.
  \<^verbatim>\<open>
    sepIndex = p.rfind(sep)
    dotIndex = p.rfind(extsep)
    if dotIndex > sepIndex:
        filenameIndex = sepIndex + 1
        while filenameIndex < dotIndex:
            if p[filenameIndex:filenameIndex+1] != extsep:
                return p[:dotIndex], p[dotIndex:]
            filenameIndex += 1
    return p, p[:0]
  \<close>
\<close>

function splitext_loop :: "string \<Rightarrow> nat \<Rightarrow> nat \<Rightarrow> bool" where
  "splitext_loop p filenameIndex dotIndex =
     (if filenameIndex < dotIndex
      then (if take 1 (drop filenameIndex p) \<noteq> ''.'' then True
            else splitext_loop p (filenameIndex + 1) dotIndex)
      else False)"
  by pat_completeness auto
termination
  by (relation "measure (\<lambda>(p, i, d). d - i)") auto

declare splitext_loop.simps [simp del]

definition splitext :: "string \<Rightarrow> string \<times> string" where
  "splitext p =
     (let sepIndex = rfind p CHR ''/'';
          dotIndex = rfind p CHR ''.''
      in if dotIndex > sepIndex \<and> splitext_loop p (nat (sepIndex + 1)) (nat dotIndex)
         then (take (nat dotIndex) p, drop (nat dotIndex) p)
         else (p, []))"

text \<open>
  \<open>os.path.join(a, b)\<close> (POSIX):
  \<^verbatim>\<open>
    if b.startswith(sep): path = b
    elif not path or path.endswith(sep): path += b
    else: path += sep + b
  \<close>
\<close>

definition join :: "string \<Rightarrow> string \<Rightarrow> string" where
  "join a b =
     (if startswith b ''/'' then b
      else if a = [] \<or> endswith a ''/'' then a @ b
      else a @ ''/'' @ b)"

text \<open>\<open>os.path.basename(p)\<close> (POSIX): \<open>p[p.rfind('/') + 1:]\<close>\<close>

definition basename :: "string \<Rightarrow> string" where
  "basename p = drop (nat (rfind p CHR ''/'' + 1)) p"

text \<open>
  \<open>os.path.dirname(p)\<close> (POSIX):
  \<^verbatim>\<open>
    i = p.rfind(sep) + 1
    head = p[:i]
    if head and head != sep*len(head):
        head = head.rstrip(sep)
    return head
  \<close>
\<close>

definition dirname :: "string \<Rightarrow> string" where
  "dirname p =
     (let i = nat (rfind p CHR ''/'' + 1);
          head = take i p
      in if head \<noteq> [] \<and> head \<noteq> replicate (length head) CHR ''/''
         then rev (dropWhile (\<lambda>c. c = CHR ''/'') (rev head))
         else head)"

text \<open>
  An optional list argument (\<open>None\<close> or a list) and its truth value: \<open>None\<close> and the
  empty list are both false.
\<close>

type_synonym strs = "string list option"

definition truthy :: "strs \<Rightarrow> bool" where
  "truthy l = (case l of None \<Rightarrow> False | Some xs \<Rightarrow> xs \<noteq> [])"

text \<open>\<open>x in l\<close> for an optional list that the code has already tested for truth.\<close>

definition mem :: "string \<Rightarrow> strs \<Rightarrow> bool" where
  "mem x l = (case l of None \<Rightarrow> False | Some xs \<Rightarrow> x \<in> set xs)"

text \<open>\<open>l or []\<close>\<close>

definition or_empty :: "strs \<Rightarrow> string list" where
  "or_empty l = (case l of None \<Rightarrow> [] | Some xs \<Rightarrow> xs)"

section \<open>The patterns file\<close>

text \<open>
  The dictionary that \<open>parse_patterns_file\<close> builds has four fixed keys; it is a record
  of four lists.
\<close>

record patterns =
  pat_extensions :: "string list"
  pat_directories :: "string list"
  pat_exact :: "string list"
  pat_contains :: "string list"

text \<open>
  What opening and reading the file gives: the path does not exist, reading raises, or
  the lines as the file iterator yields them (each with its line end).
\<close>

datatype file_input = Missing | Unreadable | Content "string list"

text \<open>The body of the \<open>for line in f\<close> loop, on the dictionary built so far.\<close>

definition parse_line :: "patterns \<Rightarrow> string \<Rightarrow> patterns" where
  "parse_line pats raw =
     (let line = strip (split_first CHR ''#'' raw)
      in if line = [] then pats
         else if startswith line ''.'' then
           pats\<lparr>pat_extensions := pat_extensions pats @ [lower line]\<rparr>
         else if endswith line ''/'' then
           pats\<lparr>pat_directories := pat_directories pats @ [butlast line]\<rparr>
         else if startswith line ''*'' then
           pats\<lparr>pat_contains := pat_contains pats @ [drop 1 line]\<rparr>
         else
           pats\<lparr>pat_exact := pat_exact pats @ [line]\<rparr>)"

primrec parse_lines :: "patterns \<Rightarrow> string list \<Rightarrow> patterns" where
  "parse_lines pats [] = pats"
| "parse_lines pats (raw # rest) = parse_lines (parse_line pats raw) rest"

definition empty_patterns :: patterns where
  "empty_patterns =
     \<lparr>pat_extensions = [], pat_directories = [], pat_exact = [], pat_contains = []\<rparr>"

definition parse_patterns_file :: "file_input \<Rightarrow> patterns option" where
  "parse_patterns_file f =
     (case f of
        Missing \<Rightarrow> None
      | Unreadable \<Rightarrow> None
      | Content ls \<Rightarrow> Some (parse_lines empty_patterns ls))"

text \<open>
  The specification's reading of the parser, for comparison with the loop above: clean
  each line, drop the empty ones, and give every remaining line one category by the
  fixed priority.
\<close>

datatype category = Extension | Directory | Contains | Exact

definition clean_line :: "string \<Rightarrow> string" where
  "clean_line raw = strip (takeWhile (\<lambda>c. c \<noteq> CHR ''#'') raw)"

definition classify :: "string \<Rightarrow> category \<times> string" where
  "classify line =
     (if hd line = CHR ''.'' then (Extension, lower line)
      else if last line = CHR ''/'' then (Directory, butlast line)
      else if hd line = CHR ''*'' then (Contains, tl line)
      else (Exact, line))"

definition classified :: "string list \<Rightarrow> (category \<times> string) list" where
  "classified ls = map classify (filter (\<lambda>l. l \<noteq> []) (map clean_line ls))"

definition of_category :: "category \<Rightarrow> (category \<times> string) list \<Rightarrow> string list" where
  "of_category c xs = map snd (filter (\<lambda>x. fst x = c) xs)"

section \<open>Matching\<close>

text \<open>
  The keyword arguments of \<open>find_matching_items\<close>, which are also the variables its two
  inner functions close over.
\<close>

record params =
  extensions :: strs
  include_dirs :: bool
  target_dirs :: strs
  contains_extension :: bool
  exact_match :: strs
  exclude_extensions :: strs
  exclude_exact :: strs
  exclude_contains :: strs
  exclude_dirs :: strs
  exclude_all_but :: bool
  include_all_files :: bool
  include_all_dirs :: bool

text \<open>
  \<open>[ext.lower() if ext.startswith('.') else '.' + ext.lower() for ext in extensions]\<close>,
  applied only to a list that is true.
\<close>

definition normalize_ext :: "string \<Rightarrow> string" where
  "normalize_ext ext = (if startswith ext ''.'' then lower ext else ''.'' @ lower ext)"

definition normalize_exts :: "strs \<Rightarrow> strs" where
  "normalize_exts l = (if truthy l then Some (map normalize_ext (or_empty l)) else l)"

text \<open>\<open>for ext in extensions: if ext in filename_lower: return True\<close>\<close>

primrec contains_loop :: "string list \<Rightarrow> string \<Rightarrow> bool" where
  "contains_loop [] filename_lower = False"
| "contains_loop (ext # rest) filename_lower =
     (if str_in ext filename_lower then True else contains_loop rest filename_lower)"

definition file_matches_criteria :: "'a params_scheme \<Rightarrow> string \<Rightarrow> bool" where
  "file_matches_criteria p filename =
     (if include_all_files p then True
      else if truthy (exact_match p) \<and> mem filename (exact_match p) then True
      else if truthy (extensions p) then
        (let file_ext = lower (snd (splitext filename))
         in if mem file_ext (extensions p) then True
            else if contains_extension p
            then contains_loop (or_empty (extensions p)) (lower filename)
            else False)
      else False)"

text \<open>\<open>for pattern in exclude_contains: if pattern.lower() in filename_lower: return True\<close>\<close>

primrec exclude_loop :: "string list \<Rightarrow> string \<Rightarrow> bool" where
  "exclude_loop [] filename_lower = False"
| "exclude_loop (pattern # rest) filename_lower =
     (if str_in (lower pattern) filename_lower then True else exclude_loop rest filename_lower)"

definition file_matches_exclusion :: "'a params_scheme \<Rightarrow> string \<Rightarrow> bool" where
  "file_matches_exclusion p filename =
     (if truthy (exclude_exact p) \<and> mem filename (exclude_exact p) then True
      else if truthy (exclude_extensions p)
              \<and> mem (lower (snd (splitext filename))) (exclude_extensions p) then True
      else if truthy (exclude_contains p)
      then exclude_loop (or_empty (exclude_contains p)) (lower filename)
      else False)"

text \<open>
  The source tree: regular files and directories, each directory with its entries in
  the order the operating system lists them. Symbolic links and special files are not
  part of the model.
\<close>

datatype entry = File string | Dir string "entry list"

fun dir_names :: "entry list \<Rightarrow> string list" where
  "dir_names [] = []"
| "dir_names (Dir n sub # es) = n # dir_names es"
| "dir_names (File n # es) = dir_names es"

fun file_names :: "entry list \<Rightarrow> string list" where
  "file_names [] = []"
| "file_names (Dir n sub # es) = file_names es"
| "file_names (File n # es) = n # file_names es"

text \<open>
  \<open>os.walk(top)\<close>, top down: the triple \<open>(root, dirs, files)\<close> of a directory, then the
  walk of each of its subdirectories in the order of \<open>dirs\<close>. The caller never changes
  \<open>dirs\<close>, so every subdirectory is walked.
\<close>

fun walk :: "string \<Rightarrow> entry list \<Rightarrow> (string \<times> string list \<times> string list) list"
  and walk_subdirs :: "string \<Rightarrow> entry list \<Rightarrow> (string \<times> string list \<times> string list) list"
where
  "walk path es = (path, dir_names es, file_names es) # walk_subdirs path es"
| "walk_subdirs path [] = []"
| "walk_subdirs path (File n # es) = walk_subdirs path es"
| "walk_subdirs path (Dir n sub # es) = walk (join path n) sub @ walk_subdirs path es"

definition has_inclusion_criteria :: "'a params_scheme \<Rightarrow> bool" where
  "has_inclusion_criteria p =
     (truthy (extensions p) \<or> truthy (exact_match p) \<or> include_all_files p
      \<or> (include_dirs p \<and> truthy (target_dirs p)))"

definition has_exclusion_criteria :: "'a params_scheme \<Rightarrow> bool" where
  "has_exclusion_criteria p =
     (truthy (exclude_extensions p) \<or> truthy (exclude_exact p)
      \<or> truthy (exclude_contains p) \<or> truthy (exclude_dirs p))"

text \<open>
  The decision on one file. The recursive and the single-level branch of the source
  hold the same text for it.
\<close>

definition select_file :: "'a params_scheme \<Rightarrow> string \<Rightarrow> bool" where
  "select_file p file =
     (let matches_criteria = file_matches_criteria p file;
          matches_exclusion = file_matches_exclusion p file
      in if exclude_all_but p
         then \<not> matches_criteria \<and> \<not> matches_exclusion
         else (matches_criteria \<or> \<not> (truthy (extensions p) \<or> truthy (exact_match p))
               \<or> include_all_files p) \<and> \<not> matches_exclusion)"

text \<open>
  The decision on one directory: \<open>continue\<close> when it is excluded, otherwise the test
  for appending it.
\<close>

definition select_dir :: "'a params_scheme \<Rightarrow> string \<Rightarrow> bool" where
  "select_dir p dir_name =
     (if truthy (exclude_dirs p) \<and> mem dir_name (exclude_dirs p) then False
      else include_all_dirs p
           \<or> (include_dirs p \<and> truthy (target_dirs p) \<and> mem dir_name (target_dirs p)))"

primrec files_loop :: "'a params_scheme \<Rightarrow> string \<Rightarrow> string list \<Rightarrow> string list \<Rightarrow> string list" where
  "files_loop p root [] matched_files = matched_files"
| "files_loop p root (file # rest) matched_files =
     files_loop p root rest
       (if select_file p file then matched_files @ [join root file] else matched_files)"

primrec dirs_loop :: "'a params_scheme \<Rightarrow> string \<Rightarrow> string list \<Rightarrow> string list \<Rightarrow> string list" where
  "dirs_loop p root [] matched_dirs = matched_dirs"
| "dirs_loop p root (dir_name # rest) matched_dirs =
     dirs_loop p root rest
       (if select_dir p dir_name then matched_dirs @ [join root dir_name] else matched_dirs)"

text \<open>\<open>for root, dirs, files in os.walk(source_dir)\<close>\<close>

fun walk_loop :: "'a params_scheme \<Rightarrow> (string \<times> string list \<times> string list) list
    \<Rightarrow> string list \<times> string list \<Rightarrow> string list \<times> string list" where
  "walk_loop p [] (matched_files, matched_dirs) = (matched_files, matched_dirs)"
| "walk_loop p ((root, dirs, files) # rest) (matched_files, matched_dirs) =
     walk_loop p rest (files_loop p root files matched_files, dirs_loop p root dirs matched_dirs)"

text \<open>
  \<open>for item in os.listdir(source_dir)\<close>: a file is decided by its listed name, a
  directory by the base name of its joined path.
\<close>

fun listdir_loop :: "'a params_scheme \<Rightarrow> string \<Rightarrow> entry list
    \<Rightarrow> string list \<times> string list \<Rightarrow> string list \<times> string list" where
  "listdir_loop p source_dir [] (matched_files, matched_dirs) = (matched_files, matched_dirs)"
| "listdir_loop p source_dir (File item # rest) (matched_files, matched_dirs) =
     listdir_loop p source_dir rest
       (if select_file p item then matched_files @ [join source_dir item] else matched_files,
        matched_dirs)"
| "listdir_loop p source_dir (Dir item sub # rest) (matched_files, matched_dirs) =
     listdir_loop p source_dir rest
       (matched_files,
        if select_dir p (basename (join source_dir item))
        then matched_dirs @ [join source_dir item] else matched_dirs)"

text \<open>
  \<open>find_matching_items\<close> on a source directory that exists and holds \<open>tree\<close>. The two
  validations return empty lists; after them the extension lists are normalised and the
  walk runs with the normalised lists.
\<close>

definition normalized :: "'a params_scheme \<Rightarrow> 'a params_scheme" where
  "normalized p =
     p\<lparr>extensions := normalize_exts (extensions p),
       exclude_extensions := normalize_exts (exclude_extensions p)\<rparr>"

definition find_matching_items ::
  "string \<Rightarrow> entry list \<Rightarrow> bool \<Rightarrow> 'a params_scheme \<Rightarrow> string list \<times> string list" where
  "find_matching_items source_dir tree recursive p =
     (if \<not> has_inclusion_criteria p \<and> \<not> has_exclusion_criteria p \<and> \<not> exclude_all_but p
      then ([], [])
      else if exclude_all_but p \<and> \<not> has_inclusion_criteria p then ([], [])
      else if recursive then walk_loop (normalized p) (walk source_dir tree) ([], [])
      else listdir_loop (normalized p) source_dir tree ([], []))"

section \<open>Processing the matched items\<close>

text \<open>
  The file system is a state of any type \<open>'fs\<close>, and the library calls that read or
  change it are given as a record of functions. A call that raises returns \<open>Inl\<close> with
  the text of the exception, together with the state it leaves behind (which may hold a
  part of its work). \<open>process_items\<close> is modelled for a caller that passes a logger, as
  \<open>main\<close> does; what the logger prints is not part of the model.
\<close>

type_synonym exn = string

record 'fs prims =
  os_path_relpath :: "'fs \<Rightarrow> string \<Rightarrow> string \<Rightarrow> exn + string"
  os_path_exists :: "'fs \<Rightarrow> string \<Rightarrow> bool"
  os_makedirs :: "string \<Rightarrow> 'fs \<Rightarrow> (exn + unit) \<times> 'fs"
  os_remove :: "string \<Rightarrow> 'fs \<Rightarrow> (exn + unit) \<times> 'fs"
  shutil_rmtree :: "string \<Rightarrow> 'fs \<Rightarrow> (exn + unit) \<times> 'fs"
  shutil_copytree :: "string \<Rightarrow> string \<Rightarrow> 'fs \<Rightarrow> (exn + unit) \<times> 'fs"
  shutil_copy2 :: "string \<Rightarrow> string \<Rightarrow> 'fs \<Rightarrow> (exn + unit) \<times> 'fs"
  shutil_move :: "string \<Rightarrow> string \<Rightarrow> 'fs \<Rightarrow> (exn + unit) \<times> 'fs"

text \<open>
  \<open>os.path.join(dest_dir, rel_path)\<close>, where \<open>dest_dir\<close> defaults to \<open>None\<close>: joining
  \<open>None\<close> raises a \<open>TypeError\<close>.
\<close>

definition join_dest :: "string option \<Rightarrow> string \<Rightarrow> exn + string" where
  "join_dest dest_dir rel_path =
     (case dest_dir of
        None \<Rightarrow> Inl ''expected str, bytes or os.PathLike object, not NoneType''
      | Some d \<Rightarrow> Inr (join d rel_path))"

text \<open>
  \<open>if not os.path.exists(dest_parent_dir): os.makedirs(dest_parent_dir)\<close>
\<close>

definition ensure_parent :: "'fs prims \<Rightarrow> string \<Rightarrow> 'fs \<Rightarrow> (exn + unit) \<times> 'fs" where
  "ensure_parent P dest_parent_dir fs =
     (if \<not> os_path_exists P fs dest_parent_dir then os_makedirs P dest_parent_dir fs
      else (Inr (), fs))"

text \<open>
  The body of the \<open>try\<close> block for one item: \<open>Inr ()\<close> when it reaches
  \<open>processed_count += 1\<close>, \<open>Inl e\<close> when a call raises \<open>e\<close>.
\<close>

definition try_item ::
  "'fs prims \<Rightarrow> string \<Rightarrow> string \<Rightarrow> string option \<Rightarrow> bool \<Rightarrow> bool \<Rightarrow> string \<Rightarrow> 'fs
     \<Rightarrow> (exn + unit) \<times> 'fs" where
  "try_item P operation source_dir dest_dir is_dirs dry_run item_path fs =
     (case os_path_relpath P fs item_path source_dir of
        Inl e \<Rightarrow> (Inl e, fs)
      | Inr rel_path \<Rightarrow>
          if dry_run then
            (if operation = ''delete'' then (Inr (), fs)
             else (case join_dest dest_dir rel_path of
                     Inl e \<Rightarrow> (Inl e, fs)
                   | Inr dest_item_path \<Rightarrow> (Inr (), fs)))
          else if operation = ''delete'' then
            (if is_dirs then shutil_rmtree P item_path fs else os_remove P item_path fs)
          else if operation = ''copy'' then
            (case join_dest dest_dir rel_path of
               Inl e \<Rightarrow> (Inl e, fs)
             | Inr dest_item_path \<Rightarrow>
                 (case ensure_parent P (dirname dest_item_path) fs of
                    (Inl e, fs1) \<Rightarrow> (Inl e, fs1)
                  | (Inr u, fs1) \<Rightarrow>
                      if is_dirs then shutil_copytree P item_path dest_item_path fs1
                      else shutil_copy2 P item_path dest_item_path fs1))
          else if operation = ''move'' then
            (case join_dest dest_dir rel_path of
               Inl e \<Rightarrow> (Inl e, fs)
             | Inr dest_item_path \<Rightarrow>
                 (case ensure_parent P (dirname dest_item_path) fs of
                    (Inl e, fs1) \<Rightarrow> (Inl e, fs1)
                  | (Inr u, fs1) \<Rightarrow> shutil_move P item_path dest_item_path fs1))
          else (Inr (), fs))"

text \<open>
  \<open>for item_path in items\<close>, on the counter, the error list and the file system. The
  \<open>except\<close> clause appends the pair of the path and the exception's text and goes on.
\<close>

fun items_loop ::
  "'fs prims \<Rightarrow> string \<Rightarrow> string \<Rightarrow> string option \<Rightarrow> bool \<Rightarrow> bool \<Rightarrow> string list
     \<Rightarrow> nat \<times> (string \<times> exn) list \<times> 'fs \<Rightarrow> nat \<times> (string \<times> exn) list \<times> 'fs" where
  "items_loop P operation source_dir dest_dir is_dirs dry_run [] acc = acc"
| "items_loop P operation source_dir dest_dir is_dirs dry_run (item_path # rest)
     (processed_count, errors, fs) =
     (case try_item P operation source_dir dest_dir is_dirs dry_run item_path fs of
        (Inr u, fs') \<Rightarrow>
          items_loop P operation source_dir dest_dir is_dirs dry_run rest
            (processed_count + 1, errors, fs')
      | (Inl e, fs') \<Rightarrow>
          items_loop P operation source_dir dest_dir is_dirs dry_run rest
            (processed_count, errors @ [(item_path, e)], fs'))"

text \<open>
  \<open>process_items\<close> returns \<open>(processed_count, errors)\<close>; the model returns the file
  system it leaves as a third component.
\<close>

definition process_items ::
  "'fs prims \<Rightarrow> string \<Rightarrow> string list \<Rightarrow> string \<Rightarrow> string option \<Rightarrow> bool \<Rightarrow> bool \<Rightarrow> 'fs
     \<Rightarrow> nat \<times> (string \<times> exn) list \<times> 'fs" where
  "process_items P operation items source_dir dest_dir is_dirs dry_run fs =
     items_loop P operation source_dir dest_dir is_dirs dry_run items (0, [], fs)"

text \<open>
  For stating what \<open>process_items\<close> returns: the outcome of every item in turn, each on
  the file system its predecessors left.
\<close>

primrec outcomes ::
  "'fs prims \<Rightarrow> string \<Rightarrow> string \<Rightarrow> string option \<Rightarrow> bool \<Rightarrow> bool \<Rightarrow> string list \<Rightarrow> 'fs
     \<Rightarrow> (string \<times> (exn + unit)) list" where
  "outcomes P operation source_dir dest_dir is_dirs dry_run [] fs = []"
| "outcomes P operation source_dir dest_dir is_dirs dry_run (item_path # rest) fs =
     (item_path, fst (try_item P operation source_dir dest_dir is_dirs dry_run item_path fs))
     # outcomes P operation source_dir dest_dir is_dirs dry_run rest
         (snd (try_item P operation source_dir dest_dir is_dirs dry_run item_path fs))"

primrec final_fs ::
  "'fs prims \<Rightarrow> string \<Rightarrow> string \<Rightarrow> string option \<Rightarrow> bool \<Rightarrow> bool \<Rightarrow> string list \<Rightarrow> 'fs \<Rightarrow> 'fs" where
  "final_fs P operation source_dir dest_dir is_dirs dry_run [] fs = fs"
| "final_fs P operation source_dir dest_dir is_dirs dry_run (item_path # rest) fs =
     final_fs P operation source_dir dest_dir is_dirs dry_run rest
       (snd (try_item P operation source_dir dest_dir is_dirs dry_run item_path fs))"

fun succeeded :: "string \<times> (exn + unit) \<Rightarrow> bool" where
  "succeeded (item_path, Inr u) = True"
| "succeeded (item_path, Inl e) = False"

fun failure :: "string \<times> (exn + unit) \<Rightarrow> (string \<times> exn) option" where
  "failure (item_path, Inr u) = None"
| "failure (item_path, Inl e) = Some (item_path, e)"

text \<open>
  A small file system for the scenarios: the paths that exist and the paths that may
  not be removed. Removing a path raises when it is protected or absent; the relative
  path of an item is the item, and an empty path raises as \<open>os.path.relpath\<close> does.
\<close>

record disk =
  present :: "string list"
  locked :: "string list"

definition disk_remove :: "string \<Rightarrow> disk \<Rightarrow> (exn + unit) \<times> disk" where
  "disk_remove path d =
     (if path \<in> set (locked d) then (Inl ''Permission denied'', d)
      else if path \<in> set (present d) then (Inr (), d\<lparr>present := removeAll path (present d)\<rparr>)
      else (Inl ''No such file or directory'', d))"

definition disk_copy :: "string \<Rightarrow> string \<Rightarrow> disk \<Rightarrow> (exn + unit) \<times> disk" where
  "disk_copy path dest d =
     (if path \<in> set (present d) then (Inr (), d\<lparr>present := present d @ [dest]\<rparr>)
      else (Inl ''No such file or directory'', d))"

definition disk_move :: "string \<Rightarrow> string \<Rightarrow> disk \<Rightarrow> (exn + unit) \<times> disk" where
  "disk_move path dest d =
     (if path \<in> set (locked d) then (Inl ''Permission denied'', d)
      else if path \<in> set (present d)
      then (Inr (), d\<lparr>present := removeAll path (present d) @ [dest]\<rparr>)
      else (Inl ''No such file or directory'', d))"

definition disk_prims :: "disk prims" where
  "disk_prims =
     \<lparr>os_path_relpath = (\<lambda>d path start. if path = [] then Inl ''no path specified'' else Inr path),
      os_path_exists = (\<lambda>d path. path \<in> set (present d)),
      os_makedirs = (\<lambda>path d. (Inr (), d\<lparr>present := present d @ [path]\<rparr>)),
      os_remove = disk_remove,
      shutil_rmtree = disk_remove,
      shutil_copytree = disk_copy,
      shutil_copy2 = disk_copy,
      shutil_move = disk_move\<rparr>"

section \<open>Resolving the arguments in main\<close>

text \<open>
  The working set of \<open>main\<close> between parsing the command line and calling
  \<open>find_matching_items\<close>: the parsed arguments, with the locals \<open>exclude_dirs\<close>,
  \<open>include_all_files\<close> and \<open>include_all_dirs\<close> that it passes on, and its two
  criteria flags. It extends the record of the keyword arguments, so the call passes
  the fields of the same name.
\<close>

record main_state = params +
  args_operation :: string
  args_dest_dir :: "string option"
  patterns_file :: "string option"
  patterns_exclude :: bool
  patterns_excludeFiles :: bool
  patterns_excludeDirs :: bool
  patterns_override :: bool
  no_recursive :: bool
  main_has_inclusion_criteria :: bool
  main_has_exclusion_criteria :: bool

text \<open>The ways \<open>main\<close> ends before the search: a parser error, or \<open>return 1\<close>.\<close>

datatype main_exit =
    DestDirRequired
  | PatternFlagsConflict
  | PatternsFileFailed
  | NoCriteria
  | ExcludeAllButNeedsCriteria
  | IncludeDirsNeedsTargets
  | ContainsNeedsExtensions

definition pattern_exclusion_flags :: "main_state \<Rightarrow> nat" where
  "pattern_exclusion_flags args =
     (if patterns_exclude args then 1 else 0)
     + (if patterns_excludeFiles args then 1 else 0)
     + (if patterns_excludeDirs args then 1 else 0)"

text \<open>Lines 563 to 568: the locals before the patterns file is read.\<close>

definition init_locals :: "main_state \<Rightarrow> main_state" where
  "init_locals args =
     args\<lparr>exclude_dirs := None,
          include_all_files := False,
          include_all_dirs := False,
          main_has_inclusion_criteria :=
            (truthy (extensions args) \<or> truthy (exact_match args)
             \<or> (include_dirs args \<and> truthy (target_dirs args))),
          main_has_exclusion_criteria :=
            (truthy (exclude_extensions args) \<or> truthy (exclude_exact args)
             \<or> truthy (exclude_contains args))\<rparr>"

text \<open>The branch \<open>if args.patterns_exclude\<close>.\<close>

definition apply_patterns_exclude :: "patterns \<Rightarrow> main_state \<Rightarrow> main_state" where
  "apply_patterns_exclude fp st =
     (let st0 = st\<lparr>include_all_files := True, include_all_dirs := True,
                   main_has_inclusion_criteria := True\<rparr>;
          st1 = (if pat_extensions fp \<noteq> []
                 then st0\<lparr>exclude_extensions :=
                            Some (pat_extensions fp @ or_empty (exclude_extensions st0))\<rparr>
                 else st0);
          st2 = (if pat_exact fp \<noteq> []
                 then st1\<lparr>exclude_exact := Some (pat_exact fp @ or_empty (exclude_exact st1))\<rparr>
                 else st1);
          st3 = (if pat_contains fp \<noteq> []
                 then st2\<lparr>exclude_contains :=
                            Some (pat_contains fp @ or_empty (exclude_contains st2))\<rparr>
                 else st2)
      in if pat_directories fp \<noteq> [] then st3\<lparr>exclude_dirs := Some (pat_directories fp)\<rparr>
         else st3)"

text \<open>The branch \<open>elif args.patterns_excludeFiles\<close>.\<close>

definition apply_patterns_excludeFiles :: "patterns \<Rightarrow> main_state \<Rightarrow> main_state" where
  "apply_patterns_excludeFiles fp st =
     (let st1 = (if pat_extensions fp \<noteq> []
                 then st\<lparr>exclude_extensions :=
                           Some (pat_extensions fp @ or_empty (exclude_extensions st)),
                         main_has_exclusion_criteria := True\<rparr>
                 else st);
          st2 = (if pat_exact fp \<noteq> []
                 then st1\<lparr>exclude_exact := Some (pat_exact fp @ or_empty (exclude_exact st1)),
                          main_has_exclusion_criteria := True\<rparr>
                 else st1);
          st3 = (if pat_contains fp \<noteq> []
                 then st2\<lparr>exclude_contains :=
                            Some (pat_contains fp @ or_empty (exclude_contains st2)),
                          main_has_exclusion_criteria := True\<rparr>
                 else st2)
      in if pat_directories fp \<noteq> []
         then st3\<lparr>include_dirs := True,
                  target_dirs := Some (pat_directories fp @ or_empty (target_dirs st3)),
                  main_has_inclusion_criteria := True\<rparr>
         else st3)"

text \<open>The branch \<open>elif args.patterns_excludeDirs\<close>.\<close>

definition apply_patterns_excludeDirs :: "patterns \<Rightarrow> main_state \<Rightarrow> main_state" where
  "apply_patterns_excludeDirs fp st =
     (let st0 = st\<lparr>include_all_files := True, include_all_dirs := True,
                   main_has_inclusion_criteria := True\<rparr>;
          st1 = (if pat_extensions fp \<noteq> []
                 then st0\<lparr>extensions := Some (pat_extensions fp @ or_empty (extensions st0))\<rparr>
                 else st0);
          st2 = (if pat_exact fp \<noteq> []
                 then st1\<lparr>exact_match := Some (pat_exact fp @ or_empty (exact_match st1))\<rparr>
                 else st1)
      in if pat_directories fp \<noteq> [] then st2\<lparr>exclude_dirs := Some (pat_directories fp)\<rparr>
         else st2)"

text \<open>The \<open>else\<close> branch: normal inclusion mode.\<close>

definition apply_patterns_normal :: "patterns \<Rightarrow> main_state \<Rightarrow> main_state" where
  "apply_patterns_normal fp st =
     (let st1 = (if pat_extensions fp \<noteq> []
                    \<and> (patterns_override st \<or> \<not> truthy (extensions st))
                 then st\<lparr>extensions :=
                           Some (pat_extensions fp
                                 @ (if patterns_override st then []
                                    else or_empty (extensions st))),
                         main_has_inclusion_criteria := True\<rparr>
                 else st);
          st2 = (if pat_exact fp \<noteq> []
                    \<and> (patterns_override st1 \<or> \<not> truthy (exact_match st1))
                 then st1\<lparr>exact_match :=
                            Some (pat_exact fp
                                  @ (if patterns_override st1 then []
                                     else or_empty (exact_match st1))),
                          main_has_inclusion_criteria := True\<rparr>
                 else st1);
          st3 = (if pat_contains fp \<noteq> []
                 then st2\<lparr>exclude_contains :=
                            Some (pat_contains fp @ or_empty (exclude_contains st2)),
                          main_has_exclusion_criteria := True\<rparr>
                 else st2)
      in if pat_directories fp \<noteq> []
         then st3\<lparr>include_dirs := True,
                  target_dirs :=
                    Some (pat_directories fp
                          @ (if patterns_override st3 then [] else or_empty (target_dirs st3))),
                  main_has_inclusion_criteria := True\<rparr>
         else st3)"

definition apply_patterns :: "patterns \<Rightarrow> main_state \<Rightarrow> main_state" where
  "apply_patterns fp st =
     (if patterns_exclude st then apply_patterns_exclude fp st
      else if patterns_excludeFiles st then apply_patterns_excludeFiles fp st
      else if patterns_excludeDirs st then apply_patterns_excludeDirs fp st
      else apply_patterns_normal fp st)"

text \<open>
  \<open>if args.patterns_file\<close>: an absent or empty path reads nothing; a file that cannot be
  parsed ends \<open>main\<close> with \<open>return 1\<close>.
\<close>

definition load_patterns :: "(string \<Rightarrow> file_input) \<Rightarrow> main_state \<Rightarrow> main_exit + main_state" where
  "load_patterns read_file st =
     (case patterns_file st of
        None \<Rightarrow> Inr st
      | Some file_path \<Rightarrow>
          if file_path = [] then Inr st
          else (case parse_patterns_file (read_file file_path) of
                  None \<Rightarrow> Inl PatternsFileFailed
                | Some fp \<Rightarrow> Inr (apply_patterns fp st)))"

text \<open>Lines 654 to 667: the four checks after the patterns file.\<close>

definition validate :: "main_state \<Rightarrow> main_exit + main_state" where
  "validate st =
     (if \<not> include_all_files st \<and> \<not> exclude_all_but st
         \<and> \<not> main_has_inclusion_criteria st \<and> \<not> main_has_exclusion_criteria st
      then Inl NoCriteria
      else if exclude_all_but st \<and> \<not> main_has_inclusion_criteria st
      then Inl ExcludeAllButNeedsCriteria
      else if include_dirs st \<and> \<not> truthy (target_dirs st) then Inl IncludeDirsNeedsTargets
      else if contains_extension st \<and> \<not> truthy (extensions st) then Inl ContainsNeedsExtensions
      else Inr st)"

definition main_resolve :: "(string \<Rightarrow> file_input) \<Rightarrow> main_state \<Rightarrow> main_exit + main_state" where
  "main_resolve read_file args =
     (if args_operation args \<in> set [''copy'', ''move'']
         \<and> (args_dest_dir args = None \<or> args_dest_dir args = Some [])
      then Inl DestDirRequired
      else if pattern_exclusion_flags args > 1 then Inl PatternFlagsConflict
      else (case load_patterns read_file (init_locals args) of
              Inl e \<Rightarrow> Inl e
            | Inr st \<Rightarrow> validate st))"

text \<open>
  The call of \<open>find_matching_items\<close> in \<open>main\<close>, on a source directory that exists:
  every keyword argument is the field of the same name.
\<close>

definition main_find :: "string \<Rightarrow> entry list \<Rightarrow> main_state \<Rightarrow> string list \<times> string list" where
  "main_find source_dir tree st = find_matching_items source_dir tree (\<not> no_recursive st) st"

section \<open>Notions for stating the properties\<close>

text \<open>The defaults of the keyword arguments of \<open>find_matching_items\<close>.\<close>

definition default_params :: params where
  "default_params =
     \<lparr>extensions = None, include_dirs = False, target_dirs = None,
      contains_extension = False, exact_match = None, exclude_extensions = None,
      exclude_exact = None, exclude_contains = None, exclude_dirs = None,
      exclude_all_but = False, include_all_files = False, include_all_dirs = False\<rparr>"

text \<open>
  The files and the directories that a search comes across, each with the directory it
  is listed in, in the order of the visit: the whole tree when the search is recursive,
  the entries of the source directory otherwise.
\<close>

definition files_seen :: "string \<Rightarrow> entry list \<Rightarrow> bool \<Rightarrow> (string \<times> string) list" where
  "files_seen source_dir tree recursive =
     (if recursive
      then concat (map (\<lambda>(root, dirs, files). map (Pair root) files) (walk source_dir tree))
      else map (Pair source_dir) (file_names tree))"

definition dirs_seen :: "string \<Rightarrow> entry list \<Rightarrow> bool \<Rightarrow> (string \<times> string) list" where
  "dirs_seen source_dir tree recursive =
     (if recursive
      then concat (map (\<lambda>(root, dirs, files). map (Pair root) dirs) (walk source_dir tree))
      else map (Pair source_dir) (dir_names tree))"

text \<open>The paths of those whose name passes a test.\<close>

definition paths_where :: "(string \<Rightarrow> bool) \<Rightarrow> (string \<times> string) list \<Rightarrow> string list" where
  "paths_where keep seen = map (\<lambda>(root, name). join root name) (filter (\<lambda>(root, name). keep name) seen)"

text \<open>
  The final dot-suffix of a name: the text from its last dot on, empty when it has no
  dot; and the text in front of the last dot.
\<close>

definition final_dot_suffix :: "string \<Rightarrow> string" where
  "final_dot_suffix f =
     (if CHR ''.'' \<in> set f then CHR ''.'' # rev (takeWhile (\<lambda>c. c \<noteq> CHR ''.'') (rev f))
      else [])"

definition before_last_dot :: "string \<Rightarrow> string" where
  "before_last_dot f = rev (drop 1 (dropWhile (\<lambda>c. c \<noteq> CHR ''.'') (rev f)))"

text \<open>The search passes its two validations, so that the walk takes place.\<close>

definition validations_pass :: "'a params_scheme \<Rightarrow> bool" where
  "validations_pass p =
     ((has_inclusion_criteria p \<or> has_exclusion_criteria p \<or> exclude_all_but p)
      \<and> (has_inclusion_criteria p \<or> \<not> exclude_all_but p))"

text \<open>
  The parsed command line when only the operation is given: every option at its
  \<open>argparse\<close> default.
\<close>

definition default_args :: "string \<Rightarrow> main_state" where
  "default_args operation_name =
     \<lparr>extensions = None, include_dirs = False, target_dirs = None,
      contains_extension = False, exact_match = None, exclude_extensions = None,
      exclude_exact = None, exclude_contains = None, exclude_dirs = None,
      exclude_all_but = False, include_all_files = False, include_all_dirs = False,
      args_operation = operation_name, args_dest_dir = None, patterns_file = None,
      patterns_exclude = False, patterns_excludeFiles = False, patterns_excludeDirs = False,
      patterns_override = False, no_recursive = False,
      main_has_inclusion_criteria = False, main_has_exclusion_criteria = False\<rparr>"

section \<open>Properties of the patterns file parser\<close>

lemma startswith_char: "startswith line [c] \<longleftrightarrow> line \<noteq> [] \<and> hd line = c"
  by (cases line) (auto simp: startswith_def)

lemma endswith_char: "endswith line [c] \<longleftrightarrow> line \<noteq> [] \<and> last line = c"
proof (cases line rule: rev_cases)
  case Nil
  then show ?thesis by (simp add: endswith_def)
next
  case (snoc ys y)
  then show ?thesis by (simp add: endswith_def)
qed

lemma parse_line_classify:
  "parse_line pats raw =
     (if clean_line raw = [] then pats
      else (case classify (clean_line raw) of
              (Extension, s) \<Rightarrow> pats\<lparr>pat_extensions := pat_extensions pats @ [s]\<rparr>
            | (Directory, s) \<Rightarrow> pats\<lparr>pat_directories := pat_directories pats @ [s]\<rparr>
            | (Contains, s) \<Rightarrow> pats\<lparr>pat_contains := pat_contains pats @ [s]\<rparr>
            | (Exact, s) \<Rightarrow> pats\<lparr>pat_exact := pat_exact pats @ [s]\<rparr>))"
  by (simp add: parse_line_def clean_line_def split_first_def classify_def Let_def
      startswith_char endswith_char drop_Suc)

lemma parse_lines_classified:
  "parse_lines pats ls =
     \<lparr>pat_extensions = pat_extensions pats @ of_category Extension (classified ls),
      pat_directories = pat_directories pats @ of_category Directory (classified ls),
      pat_exact = pat_exact pats @ of_category Exact (classified ls),
      pat_contains = pat_contains pats @ of_category Contains (classified ls)\<rparr>"
proof (induction ls arbitrary: pats)
  case Nil
  then show ?case by (simp add: classified_def of_category_def)
next
  case (Cons raw ls)
  have step: "classified (raw # ls) =
      (if clean_line raw = [] then classified ls else classify (clean_line raw) # classified ls)"
    by (simp add: classified_def)
  show ?case
    by (cases "classify (clean_line raw)"; cases "fst (classify (clean_line raw))")
       (simp_all add: Cons.IH parse_line_classify step of_category_def)
qed

lemma category_lengths:
  "length (of_category Extension xs) + length (of_category Directory xs)
   + length (of_category Contains xs) + length (of_category Exact xs) = length xs"
proof (induction xs)
  case Nil
  then show ?case by (simp add: of_category_def)
next
  case (Cons x xs)
  then show ?case by (cases "fst x") (simp_all add: of_category_def)
qed

text \<open>
  C7. \<open>parse_patterns_file\<close> drops everything from the first \<open>#\<close> of a line, trims
  white space, skips a line that is then empty, and puts every remaining line into
  exactly one of the four lists by the fixed priority of \<open>classify\<close>: a leading dot
  gives an extension, stored in lower case; a trailing slash gives a directory, stored
  without the slash; a leading asterisk gives a contains pattern, stored without the
  asterisk; any other line is an exact name, stored as it is. The four lines \<open>.bak\<close>,
  \<open>logs/\<close>, \<open>*draft\<close>, \<open>notes.txt\<close> parse to one entry in each list.
\<close>

theorem parse_patterns_file_classifies:
  "parse_patterns_file (Content ls) =
     Some \<lparr>pat_extensions = of_category Extension (classified ls),
           pat_directories = of_category Directory (classified ls),
           pat_exact = of_category Exact (classified ls),
           pat_contains = of_category Contains (classified ls)\<rparr>
   \<and> length (of_category Extension (classified ls))
     + length (of_category Directory (classified ls))
     + length (of_category Contains (classified ls))
     + length (of_category Exact (classified ls))
     = length (filter (\<lambda>l. l \<noteq> []) (map clean_line ls))
   \<and> parse_patterns_file
       (Content [''.bak'' @ [CHR 0x0A], ''logs/'' @ [CHR 0x0A], ''*draft'' @ [CHR 0x0A],
                 ''notes.txt'' @ [CHR 0x0A]])
     = Some \<lparr>pat_extensions = [''.bak''], pat_directories = [''logs''],
             pat_exact = [''notes.txt''], pat_contains = [''draft'']\<rparr>"
proof -
  have a: "parse_patterns_file (Content ls) =
     Some \<lparr>pat_extensions = of_category Extension (classified ls),
           pat_directories = of_category Directory (classified ls),
           pat_exact = of_category Exact (classified ls),
           pat_contains = of_category Contains (classified ls)\<rparr>"
    by (simp add: parse_patterns_file_def parse_lines_classified empty_patterns_def)
  have b: "length (of_category Extension (classified ls))
     + length (of_category Directory (classified ls))
     + length (of_category Contains (classified ls))
     + length (of_category Exact (classified ls))
     = length (filter (\<lambda>l. l \<noteq> []) (map clean_line ls))"
    by (simp add: category_lengths) (simp add: classified_def)
  have c: "parse_patterns_file
       (Content [''.bak'' @ [CHR 0x0A], ''logs/'' @ [CHR 0x0A], ''*draft'' @ [CHR 0x0A],
                 ''notes.txt'' @ [CHR 0x0A]])
     = Some \<lparr>pat_extensions = [''.bak''], pat_directories = [''logs''],
             pat_exact = [''notes.txt''], pat_contains = [''draft'']\<rparr>"
    by (simp add: parse_patterns_file_def empty_patterns_def parse_line_def split_first_def
        strip_def isspace_def startswith_def endswith_def lower_def lower_char_def Let_def)
  from a b c show ?thesis by blast
qed

theorem parse_patterns_file_classifies_witness:
  "parse_patterns_file (Content [''# only a comment'', ''  .TXT  # upper case'', ''Makefile''])
   = Some \<lparr>pat_extensions = [''.txt''], pat_directories = [],
           pat_exact = [''Makefile''], pat_contains = []\<rparr>"
  using parse_patterns_file_classifies
          [of "[''# only a comment'', ''  .TXT  # upper case'', ''Makefile'']"]
  by (simp add: classified_def of_category_def clean_line_def classify_def strip_def
      isspace_def lower_def lower_char_def)

section \<open>Properties of the matching\<close>

lemma startswith_iff: "startswith s p \<longleftrightarrow> (\<exists>b. s = p @ b)"
proof
  assume "startswith s p"
  then have "s = p @ drop (length p) s"
    by (metis append_take_drop_id startswith_def)
  then show "\<exists>b. s = p @ b" ..
next
  assume "\<exists>b. s = p @ b"
  then show "startswith s p" by (auto simp: startswith_def)
qed

lemma str_in_iff: "str_in p s \<longleftrightarrow> (\<exists>a b. s = a @ p @ b)"
proof (induction s)
  case Nil
  then show ?case by auto
next
  case (Cons c cs)
  show ?case
  proof
    assume "str_in p (c # cs)"
    then consider "startswith (c # cs) p" | "str_in p cs" by auto
    then show "\<exists>a b. c # cs = a @ p @ b"
    proof cases
      case 1
      then obtain b where "c # cs = [] @ p @ b" by (auto simp: startswith_iff)
      then show ?thesis by blast
    next
      case 2
      then obtain a b where "cs = a @ p @ b" using Cons.IH by blast
      then have "c # cs = (c # a) @ p @ b" by simp
      then show ?thesis by blast
    qed
  next
    assume "\<exists>a b. c # cs = a @ p @ b"
    then obtain a b where ab: "c # cs = a @ p @ b" by blast
    show "str_in p (c # cs)"
    proof (cases a)
      case Nil
      with ab have "startswith (c # cs) p" by (auto simp: startswith_iff)
      then show ?thesis by simp
    next
      case (Cons x a')
      with ab have "cs = a' @ p @ b" by simp
      then have "str_in p cs" using Cons.IH by blast
      then show ?thesis by simp
    qed
  qed
qed

lemma str_in_empty: "str_in [] s"
  by (induction s) (simp_all add: startswith_def)

lemma contains_loop_iff: "contains_loop exts fl \<longleftrightarrow> (\<exists>e\<in>set exts. str_in e fl)"
  by (induction exts) auto

lemma exclude_loop_iff: "exclude_loop pats fl \<longleftrightarrow> (\<exists>e\<in>set pats. str_in (lower e) fl)"
  by (induction pats) auto

lemma truthy_or_empty: "truthy l \<longleftrightarrow> or_empty l \<noteq> []"
  by (cases l) (simp_all add: truthy_def or_empty_def)

lemma mem_or_empty: "mem x l \<longleftrightarrow> x \<in> set (or_empty l)"
  by (cases l) (simp_all add: mem_def or_empty_def)

lemma or_empty_normalize_exts: "or_empty (normalize_exts l) = map normalize_ext (or_empty l)"
  by (cases l) (auto simp: normalize_exts_def or_empty_def truthy_def)

lemma truthy_normalize_exts: "truthy (normalize_exts l) = truthy l"
  by (simp add: truthy_or_empty or_empty_normalize_exts)

lemma file_matches_criteria_flat:
  "file_matches_criteria p f \<longleftrightarrow>
     include_all_files p \<or> f \<in> set (or_empty (exact_match p))
     \<or> lower (snd (splitext f)) \<in> set (or_empty (extensions p))
     \<or> (contains_extension p \<and> (\<exists>e\<in>set (or_empty (extensions p)). str_in e (lower f)))"
  by (auto simp: file_matches_criteria_def Let_def mem_or_empty truthy_or_empty
      contains_loop_iff)

lemma file_matches_exclusion_flat:
  "file_matches_exclusion p f \<longleftrightarrow>
     f \<in> set (or_empty (exclude_exact p))
     \<or> lower (snd (splitext f)) \<in> set (or_empty (exclude_extensions p))
     \<or> (\<exists>e\<in>set (or_empty (exclude_contains p)). str_in (lower e) (lower f))"
  by (auto simp: file_matches_exclusion_def mem_or_empty truthy_or_empty exclude_loop_iff)

lemma files_loop_eq:
  "files_loop p root files acc = acc @ map (join root) (filter (select_file p) files)"
  by (induction files arbitrary: acc) simp_all

lemma dirs_loop_eq:
  "dirs_loop p root dirs acc = acc @ map (join root) (filter (select_dir p) dirs)"
  by (induction dirs arbitrary: acc) simp_all

lemma paths_where_Nil: "paths_where keep [] = []"
  by (simp add: paths_where_def)

lemma paths_where_append:
  "paths_where keep (xs @ ys) = paths_where keep xs @ paths_where keep ys"
  by (simp add: paths_where_def)

lemma paths_where_Pair:
  "paths_where keep (map (Pair root) names) = map (join root) (filter keep names)"
  by (induction names) (simp_all add: paths_where_def)

lemma walk_loop_eq:
  "walk_loop p ts (mf, md) =
     (mf @ paths_where (select_file p) (concat (map (\<lambda>(root, dirs, files). map (Pair root) files) ts)),
      md @ paths_where (select_dir p) (concat (map (\<lambda>(root, dirs, files). map (Pair root) dirs) ts)))"
proof (induction ts arbitrary: mf md)
  case Nil
  then show ?case by (simp add: paths_where_Nil)
next
  case (Cons t ts)
  obtain root dirs files where t: "t = (root, dirs, files)" by (cases t)
  show ?case
    by (simp add: t Cons.IH files_loop_eq dirs_loop_eq paths_where_append paths_where_Pair)
qed

lemma listdir_loop_eq:
  "listdir_loop p source_dir es (mf, md) =
     (mf @ map (join source_dir) (filter (select_file p) (file_names es)),
      md @ map (join source_dir)
             (filter (\<lambda>d. select_dir p (basename (join source_dir d))) (dir_names es)))"
proof (induction es arbitrary: mf md)
  case Nil
  then show ?case by simp
next
  case (Cons e es)
  then show ?case by (cases e) simp_all
qed

lemma find_files:
  "validations_pass p \<Longrightarrow>
   fst (find_matching_items source_dir tree recursive p) =
     paths_where (select_file (normalized p)) (files_seen source_dir tree recursive)"
  by (auto simp: find_matching_items_def validations_pass_def walk_loop_eq listdir_loop_eq
      files_seen_def paths_where_Pair)

lemma find_dirs_recursive:
  "validations_pass p \<Longrightarrow>
   snd (find_matching_items source_dir tree True p) =
     paths_where (select_dir (normalized p)) (dirs_seen source_dir tree True)"
  by (auto simp: find_matching_items_def validations_pass_def walk_loop_eq dirs_seen_def)

lemma rfind_from_append:
  "rfind_from c (xs @ ys) i found = rfind_from c ys (i + int (length xs)) (rfind_from c xs i found)"
  by (induction xs arbitrary: i found) (simp_all add: algebra_simps)

lemma rfind_from_absent: "c \<notin> set ys \<Longrightarrow> rfind_from c ys i found = found"
  by (induction ys arbitrary: i found) auto

lemma rfind_from_lower: "- 1 \<le> found \<Longrightarrow> 0 \<le> i \<Longrightarrow> - 1 \<le> rfind_from c s i found"
  by (induction s arbitrary: i found) auto

lemma rfind_absent: "c \<notin> set s \<Longrightarrow> rfind s c = - 1"
  by (simp add: rfind_def rfind_from_absent)

lemma rfind_last: "c \<notin> set b \<Longrightarrow> rfind (a @ c # b) c = int (length a)"
  by (simp add: rfind_def rfind_from_append rfind_from_absent)

lemma splitext_loop_iff:
  "d \<le> length p \<Longrightarrow> splitext_loop p i d \<longleftrightarrow> (\<exists>j. i \<le> j \<and> j < d \<and> p ! j \<noteq> CHR ''.'')"
proof (induction p i d rule: splitext_loop.induct)
  case (1 p i d)
  show ?case
  proof (cases "i < d")
    case False
    then show ?thesis by (simp add: splitext_loop.simps [of p i d])
  next
    case True
    with "1.prems" have len: "i < length p" by simp
    then have "drop i p = p ! i # drop (Suc i) p"
      by (simp add: Cons_nth_drop_Suc)
    then have one: "take 1 (drop i p) = [p ! i]"
      by simp
    show ?thesis
    proof (cases "p ! i = CHR ''.''")
      case False
      with True one show ?thesis by (auto simp: splitext_loop.simps [of p i d])
    next
      case dot: True
      have "splitext_loop p i d = splitext_loop p (i + 1) d"
        using True one dot by (simp add: splitext_loop.simps [of p i d])
      also have "\<dots> \<longleftrightarrow> (\<exists>j. i + 1 \<le> j \<and> j < d \<and> p ! j \<noteq> CHR ''.'')"
        using "1.IH" True one dot "1.prems" by simp
      also have "\<dots> \<longleftrightarrow> (\<exists>j. i \<le> j \<and> j < d \<and> p ! j \<noteq> CHR ''.'')"
      proof
        assume "\<exists>j. i + 1 \<le> j \<and> j < d \<and> p ! j \<noteq> CHR ''.''"
        then obtain j where "i + 1 \<le> j" "j < d" "p ! j \<noteq> CHR ''.''" by blast
        moreover from this have "i \<le> j" by simp
        ultimately show "\<exists>j. i \<le> j \<and> j < d \<and> p ! j \<noteq> CHR ''.''" by blast
      next
        assume "\<exists>j. i \<le> j \<and> j < d \<and> p ! j \<noteq> CHR ''.''"
        then obtain j where j: "i \<le> j" "j < d" "p ! j \<noteq> CHR ''.''" by blast
        with dot have "j \<noteq> i" by auto
        with j have "i + 1 \<le> j" by simp
        with j show "\<exists>j. i + 1 \<le> j \<and> j < d \<and> p ! j \<noteq> CHR ''.''" by blast
      qed
      finally show ?thesis .
    qed
  qed
qed

lemma splitext_last_dot:
  assumes "CHR ''/'' \<notin> set a" "CHR ''/'' \<notin> set b" "CHR ''.'' \<notin> set b"
  shows "splitext (a @ CHR ''.'' # b) =
           (if \<exists>c\<in>set a. c \<noteq> CHR ''.'' then (a, CHR ''.'' # b) else (a @ CHR ''.'' # b, []))"
proof -
  let ?p = "a @ CHR ''.'' # b"
  have sep: "rfind ?p CHR ''/'' = - 1" using assms by (simp add: rfind_absent)
  have dot: "rfind ?p CHR ''.'' = int (length a)" using assms(3) by (rule rfind_last)
  have idx: "splitext_loop ?p 0 (length a) \<longleftrightarrow> (\<exists>j. 0 \<le> j \<and> j < length a \<and> ?p ! j \<noteq> CHR ''.'')"
    by (rule splitext_loop_iff) simp
  have loop: "splitext_loop ?p 0 (length a) \<longleftrightarrow> (\<exists>c\<in>set a. c \<noteq> CHR ''.'')"
  proof
    assume "splitext_loop ?p 0 (length a)"
    with idx obtain j where j: "j < length a" "?p ! j \<noteq> CHR ''.''" by blast
    then have "a ! j \<noteq> CHR ''.''" by (simp add: nth_append)
    moreover from j have "a ! j \<in> set a" by simp
    ultimately show "\<exists>c\<in>set a. c \<noteq> CHR ''.''" by blast
  next
    assume "\<exists>c\<in>set a. c \<noteq> CHR ''.''"
    then obtain c where c: "c \<in> set a" "c \<noteq> CHR ''.''" by blast
    from c(1) obtain j where j: "j < length a" "a ! j = c"
      unfolding in_set_conv_nth by blast
    with c(2) have "?p ! j \<noteq> CHR ''.''" by (simp add: nth_append)
    with j(1) idx show "splitext_loop ?p 0 (length a)" by blast
  qed
  have split: "splitext ?p =
      (if int (length a) > - 1 \<and> splitext_loop ?p (nat (- 1 + 1)) (nat (int (length a)))
       then (take (nat (int (length a))) ?p, drop (nat (int (length a))) ?p) else (?p, []))"
    unfolding splitext_def Let_def sep dot ..
  show ?thesis
    unfolding split using loop by simp
qed

lemma splitext_no_dot:
  assumes "CHR ''.'' \<notin> set f"
  shows "splitext f = (f, [])"
proof -
  have "rfind f CHR ''.'' = - 1" using assms by (simp add: rfind_absent)
  moreover have "rfind f CHR ''/'' \<ge> - 1"
    by (simp add: rfind_def rfind_from_lower)
  ultimately show ?thesis by (simp add: splitext_def)
qed

lemma last_dot_parts:
  assumes "CHR ''.'' \<notin> set b"
  shows "final_dot_suffix (a @ CHR ''.'' # b) = CHR ''.'' # b"
    and "before_last_dot (a @ CHR ''.'' # b) = a"
proof -
  have tw: "takeWhile (\<lambda>c. c \<noteq> CHR ''.'') (rev b @ CHR ''.'' # rev a) = rev b"
    using assms by (simp add: takeWhile_append)
  have dw: "dropWhile (\<lambda>c. c \<noteq> CHR ''.'') (rev b @ CHR ''.'' # rev a) = CHR ''.'' # rev a"
    using assms by (simp add: dropWhile_append)
  show "final_dot_suffix (a @ CHR ''.'' # b) = CHR ''.'' # b"
    by (simp add: final_dot_suffix_def tw)
  show "before_last_dot (a @ CHR ''.'' # b) = a"
    by (simp add: before_last_dot_def dw)
qed

lemma splitext_ext:
  assumes "CHR ''/'' \<notin> set f"
  shows "snd (splitext f) =
           (if \<exists>c\<in>set (before_last_dot f). c \<noteq> CHR ''.'' then final_dot_suffix f else [])"
proof (cases "CHR ''.'' \<in> set f")
  case False
  then have dw: "dropWhile (\<lambda>c. c \<noteq> CHR ''.'') (rev f) = []"
    by auto
  have "before_last_dot f = []"
    unfolding before_last_dot_def dw by simp
  with False show ?thesis by (simp add: splitext_no_dot)
next
  case True
  from split_list_last [OF True]
  obtain a b where f: "f = a @ CHR ''.'' # b" and b: "CHR ''.'' \<notin> set b"
    by blast
  from assms f have "CHR ''/'' \<notin> set a" "CHR ''/'' \<notin> set b" by auto
  then show ?thesis
    using b by (simp add: f splitext_last_dot last_dot_parts)
qed

lemma normalized_fields:
  "include_all_files (normalized p) = include_all_files p"
  "exact_match (normalized p) = exact_match p"
  "contains_extension (normalized p) = contains_extension p"
  "extensions (normalized p) = normalize_exts (extensions p)"
  "exclude_extensions (normalized p) = normalize_exts (exclude_extensions p)"
  "exclude_exact (normalized p) = exclude_exact p"
  "exclude_contains (normalized p) = exclude_contains p"
  "exclude_dirs (normalized p) = exclude_dirs p"
  "exclude_all_but (normalized p) = exclude_all_but p"
  "include_all_dirs (normalized p) = include_all_dirs p"
  "include_dirs (normalized p) = include_dirs p"
  "target_dirs (normalized p) = target_dirs p"
  by (simp_all add: normalized_def)

lemma select_dir_iff:
  "select_dir (normalized p) d \<longleftrightarrow>
     d \<notin> set (or_empty (exclude_dirs p))
     \<and> (include_all_dirs p \<or> (include_dirs p \<and> d \<in> set (or_empty (target_dirs p))))"
  by (auto simp: select_dir_def normalized_fields mem_or_empty truthy_or_empty)

lemma walk_subdirs_contains:
  "Dir n sub \<in> set es \<Longrightarrow> set (walk (join path n) sub) \<subseteq> set (walk_subdirs path es)"
proof (induction es)
  case Nil
  then show ?case by simp
next
  case (Cons e es)
  show ?case
  proof (cases e)
    case (File m)
    with Cons show ?thesis by auto
  next
    case (Dir m sub')
    show ?thesis
    proof (cases "Dir n sub = e")
      case True
      with Dir show ?thesis by auto
    next
      case False
      with Cons.prems have "Dir n sub \<in> set es" by simp
      then have "set (walk (join path n) sub) \<subseteq> set (walk_subdirs path es)" by (rule Cons.IH)
      with Dir show ?thesis by auto
    qed
  qed
qed

text \<open>
  C1, amended. With the extension lists normalised as \<open>find_matching_items\<close> normalises
  them, \<open>file_matches_criteria\<close> holds for a name exactly when \<open>include_all_files\<close> is
  set, or the name is in \<open>exact_match\<close>, or its extension as \<open>os.path.splitext\<close> gives
  it, in lower case, is among the normalised extensions, or \<open>contains_extension\<close> is set
  and a normalised extension occurs in the lower-cased name. For a name without a slash
  that extension is the final dot-suffix when a character other than a dot stands in
  front of the last dot, and empty otherwise (so \<open>.bashrc\<close> has none). The comparison
  ignores case: \<open>b.TMP\<close> and \<open>a.tmp\<close> match \<open>.tmp\<close>, \<open>c.txt\<close> does not, and
  \<open>report.msg.1\<close> matches \<open>.msg\<close> only with \<open>contains_extension\<close>.
\<close>

theorem file_matches_criteria_iff:
  "(file_matches_criteria (normalized p) f \<longleftrightarrow>
      include_all_files p
      \<or> f \<in> set (or_empty (exact_match p))
      \<or> lower (snd (splitext f)) \<in> set (map normalize_ext (or_empty (extensions p)))
      \<or> (contains_extension p
          \<and> (\<exists>e\<in>set (map normalize_ext (or_empty (extensions p))). \<exists>a b. lower f = a @ e @ b)))
   \<and> (CHR ''/'' \<notin> set f \<longrightarrow>
        snd (splitext f) =
          (if \<exists>c\<in>set (before_last_dot f). c \<noteq> CHR ''.'' then final_dot_suffix f else []))
   \<and> file_matches_criteria (normalized (default_params\<lparr>extensions := Some [''.tmp'']\<rparr>)) ''a.tmp''
   \<and> file_matches_criteria (normalized (default_params\<lparr>extensions := Some [''.tmp'']\<rparr>)) ''b.TMP''
   \<and> \<not> file_matches_criteria (normalized (default_params\<lparr>extensions := Some [''.tmp'']\<rparr>)) ''c.txt''
   \<and> file_matches_criteria
        (normalized (default_params\<lparr>extensions := Some [''.msg''], contains_extension := True\<rparr>))
        ''report.msg.1''
   \<and> \<not> file_matches_criteria (normalized (default_params\<lparr>extensions := Some [''.msg'']\<rparr>))
        ''report.msg.1''"
proof -
  have general: "file_matches_criteria (normalized p) f \<longleftrightarrow>
      include_all_files p
      \<or> f \<in> set (or_empty (exact_match p))
      \<or> lower (snd (splitext f)) \<in> set (map normalize_ext (or_empty (extensions p)))
      \<or> (contains_extension p
          \<and> (\<exists>e\<in>set (map normalize_ext (or_empty (extensions p))). \<exists>a b. lower f = a @ e @ b))"
    unfolding file_matches_criteria_flat normalized_fields or_empty_normalize_exts str_in_iff ..
  have ext: "CHR ''/'' \<notin> set f \<longrightarrow>
        snd (splitext f) =
          (if \<exists>c\<in>set (before_last_dot f). c \<noteq> CHR ''.'' then final_dot_suffix f else [])"
    using splitext_ext by blast
  have e1: "file_matches_criteria (normalized (default_params\<lparr>extensions := Some [''.tmp'']\<rparr>)) ''a.tmp''"
    by code_simp
  have e2: "file_matches_criteria (normalized (default_params\<lparr>extensions := Some [''.tmp'']\<rparr>)) ''b.TMP''"
    by code_simp
  have e3: "\<not> file_matches_criteria (normalized (default_params\<lparr>extensions := Some [''.tmp'']\<rparr>)) ''c.txt''"
    by code_simp
  have e4: "file_matches_criteria
        (normalized (default_params\<lparr>extensions := Some [''.msg''], contains_extension := True\<rparr>))
        ''report.msg.1''"
    by code_simp
  have e5: "\<not> file_matches_criteria (normalized (default_params\<lparr>extensions := Some [''.msg'']\<rparr>))
        ''report.msg.1''"
    by code_simp
  from general ext e1 e2 e3 e4 e5 show ?thesis by blast
qed

theorem file_matches_criteria_iff_witness:
  "file_matches_criteria (normalized (default_params\<lparr>extensions := Some [''Tmp'']\<rparr>)) ''notes.v2.TMP''
   \<and> snd (splitext ''notes.v2.TMP'') = ''.TMP''
   \<and> snd (splitext ''.bashrc'') = []"
proof -
  note t1 = file_matches_criteria_iff
              [of "default_params\<lparr>extensions := Some [''Tmp'']\<rparr>" "''notes.v2.TMP''"]
  note t2 = file_matches_criteria_iff [of default_params "''.bashrc''"]
  from t1 have a: "snd (splitext ''notes.v2.TMP'') = ''.TMP''"
    by (simp add: before_last_dot_def final_dot_suffix_def)
  from t2 have b: "snd (splitext ''.bashrc'') = []"
    by (simp add: before_last_dot_def final_dot_suffix_def)
  have "lower ''.TMP'' \<in> set (map normalize_ext
           (or_empty (extensions (default_params\<lparr>extensions := Some [''Tmp'']\<rparr>))))"
    by code_simp
  with t1 a have "file_matches_criteria
      (normalized (default_params\<lparr>extensions := Some [''Tmp'']\<rparr>)) ''notes.v2.TMP''"
    by simp
  with a b show ?thesis by simp
qed

text \<open>
  C1 as it is worded fails on a name that begins with its only dot: the final dot-suffix
  of \<open>.bashrc\<close>, in lower case, is among the normalised extensions, and
  \<open>file_matches_criteria\<close> returns false, because \<open>os.path.splitext\<close> gives such a
  name no extension.
\<close>

theorem file_matches_criteria_dotfile_counterexample:
  "lower (final_dot_suffix ''.bashrc'')
     \<in> set (or_empty (extensions (normalized (default_params\<lparr>extensions := Some [''.bashrc'']\<rparr>))))
   \<and> \<not> file_matches_criteria (normalized (default_params\<lparr>extensions := Some [''.bashrc'']\<rparr>))
         ''.bashrc''"
  by code_simp

text \<open>
  C2. When \<open>exclude_all_but\<close> is set and there is an inclusion criterion, the matched
  files are the paths of exactly the files seen whose name matches neither
  \<open>file_matches_criteria\<close> nor \<open>file_matches_exclusion\<close>, in the order of the visit;
  \<open>recursive\<close> is arbitrary, so this holds for the recursive and for the single-level
  search.
\<close>

theorem exclude_all_but_selects_neither:
  assumes "exclude_all_but p" and "has_inclusion_criteria p"
  shows "fst (find_matching_items source_dir tree recursive p) =
           paths_where
             (\<lambda>f. \<not> file_matches_criteria (normalized p) f
                   \<and> \<not> file_matches_exclusion (normalized p) f)
             (files_seen source_dir tree recursive)"
proof -
  from assms have "validations_pass p" by (simp add: validations_pass_def)
  then have "fst (find_matching_items source_dir tree recursive p) =
      paths_where (select_file (normalized p)) (files_seen source_dir tree recursive)"
    by (rule find_files)
  moreover have "select_file (normalized p) =
      (\<lambda>f. \<not> file_matches_criteria (normalized p) f \<and> \<not> file_matches_exclusion (normalized p) f)"
    using assms(1) by (simp add: select_file_def normalized_fields fun_eq_iff)
  ultimately show ?thesis by simp
qed

theorem exclude_all_but_selects_neither_witness:
  "fst (find_matching_items ''.''
          [File ''a.txt'', File ''b.log'', File ''keepme.log'',
           Dir ''sub'' [File ''c.TXT'', File ''d.bak'']]
          True
          (default_params\<lparr>extensions := Some [''txt''], exclude_contains := Some [''KEEP''],
                          exclude_all_but := True\<rparr>))
     = [''./b.log'', ''./sub/d.bak'']
   \<and> fst (find_matching_items ''.''
          [File ''a.txt'', File ''b.log'', File ''keepme.log'',
           Dir ''sub'' [File ''c.TXT'', File ''d.bak'']]
          False
          (default_params\<lparr>extensions := Some [''txt''], exclude_contains := Some [''KEEP''],
                          exclude_all_but := True\<rparr>))
     = [''./b.log'']"
proof -
  let ?p = "default_params\<lparr>extensions := Some [''txt''], exclude_contains := Some [''KEEP''],
                          exclude_all_but := True\<rparr>"
  let ?tree = "[File ''a.txt'', File ''b.log'', File ''keepme.log'',
           Dir ''sub'' [File ''c.TXT'', File ''d.bak'']]"
  have h1: "exclude_all_but ?p" by simp
  have h2: "has_inclusion_criteria ?p" by code_simp
  have r: "paths_where
             (\<lambda>f. \<not> file_matches_criteria (normalized ?p) f
                   \<and> \<not> file_matches_exclusion (normalized ?p) f)
             (files_seen ''.'' ?tree True) = [''./b.log'', ''./sub/d.bak'']"
    by code_simp
  have s: "paths_where
             (\<lambda>f. \<not> file_matches_criteria (normalized ?p) f
                   \<and> \<not> file_matches_exclusion (normalized ?p) f)
             (files_seen ''.'' ?tree False) = [''./b.log'']"
    by code_simp
  show ?thesis
    using exclude_all_but_selects_neither [OF h1 h2, of "''.''" ?tree True]
          exclude_all_but_selects_neither [OF h1 h2, of "''.''" ?tree False] r s
    by simp
qed

text \<open>
  C6. In a recursive search that passes its validations, the matched directories are
  the paths of exactly the directories seen whose name is not in \<open>exclude_dirs\<close> and for
  which \<open>include_all_dirs\<close> is set, or \<open>include_dirs\<close> is set and the name is in
  \<open>target_dirs\<close>; so an excluded name is never matched, whatever \<open>include_all_dirs\<close>
  says. The walk does not depend on the arguments: the triples of every subdirectory,
  excluded or not, are among the triples of the walk, and every file in them is
  classified.
\<close>

theorem excluded_dirs_not_matched_not_pruned:
  assumes "validations_pass p"
  shows "snd (find_matching_items source_dir tree True p) =
           paths_where
             (\<lambda>d. d \<notin> set (or_empty (exclude_dirs p))
                   \<and> (include_all_dirs p
                       \<or> (include_dirs p \<and> d \<in> set (or_empty (target_dirs p)))))
             (dirs_seen source_dir tree True)
         \<and> fst (find_matching_items source_dir tree True p) =
           paths_where (select_file (normalized p)) (files_seen source_dir tree True)
         \<and> (\<forall>n sub. Dir n sub \<in> set tree \<longrightarrow>
               set (walk (join source_dir n) sub) \<subseteq> set (walk source_dir tree))"
proof -
  have "select_dir (normalized p) =
      (\<lambda>d. d \<notin> set (or_empty (exclude_dirs p))
            \<and> (include_all_dirs p \<or> (include_dirs p \<and> d \<in> set (or_empty (target_dirs p)))))"
    by (simp add: select_dir_iff fun_eq_iff)
  with find_dirs_recursive [OF assms, of source_dir tree]
  have dirs: "snd (find_matching_items source_dir tree True p) =
           paths_where
             (\<lambda>d. d \<notin> set (or_empty (exclude_dirs p))
                   \<and> (include_all_dirs p
                       \<or> (include_dirs p \<and> d \<in> set (or_empty (target_dirs p)))))
             (dirs_seen source_dir tree True)"
    by simp
  have files: "fst (find_matching_items source_dir tree True p) =
           paths_where (select_file (normalized p)) (files_seen source_dir tree True)"
    using assms by (rule find_files)
  have walk: "\<forall>n sub. Dir n sub \<in> set tree \<longrightarrow>
               set (walk (join source_dir n) sub) \<subseteq> set (walk source_dir tree)"
    using walk_subdirs_contains [of _ _ tree source_dir] by auto
  from dirs files walk show ?thesis by blast
qed

theorem excluded_dirs_not_matched_not_pruned_witness:
  "find_matching_items ''src''
     [File ''top.tmp'', Dir ''logs'' [File ''old.tmp'', Dir ''deep'' [File ''x.tmp'']],
      Dir ''cache'' []]
     True
     (default_params\<lparr>extensions := Some [''tmp''], exclude_dirs := Some [''logs''],
                     include_all_dirs := True\<rparr>)
   = ([''src/top.tmp'', ''src/logs/old.tmp'', ''src/logs/deep/x.tmp''],
      [''src/cache'', ''src/logs/deep''])"
proof -
  let ?p = "default_params\<lparr>extensions := Some [''tmp''], exclude_dirs := Some [''logs''],
                     include_all_dirs := True\<rparr>"
  let ?tree = "[File ''top.tmp'', Dir ''logs'' [File ''old.tmp'', Dir ''deep'' [File ''x.tmp'']],
      Dir ''cache'' []]"
  have h: "validations_pass ?p" by code_simp
  have d: "paths_where
             (\<lambda>d. d \<notin> set (or_empty (exclude_dirs ?p))
                   \<and> (include_all_dirs ?p
                       \<or> (include_dirs ?p \<and> d \<in> set (or_empty (target_dirs ?p)))))
             (dirs_seen ''src'' ?tree True) = [''src/cache'', ''src/logs/deep'']"
    by code_simp
  have f: "paths_where (select_file (normalized ?p)) (files_seen ''src'' ?tree True)
      = [''src/top.tmp'', ''src/logs/old.tmp'', ''src/logs/deep/x.tmp'']"
    by code_simp
  from excluded_dirs_not_matched_not_pruned [OF h, of "''src''" ?tree] d f
  show ?thesis by (simp add: prod_eq_iff)
qed

text \<open>
  C9. In normal mode without \<open>include_all_files\<close>, when \<open>include_dirs\<close> with a true
  \<open>target_dirs\<close> is the only inclusion criterion, the search passes its validations and
  the matched files are the paths of exactly the files seen that match no exclusion
  criterion: the directory criterion does not restrict the files.
\<close>

theorem dirs_only_criteria_match_all_files:
  assumes "\<not> exclude_all_but p" and "\<not> include_all_files p"
    and "include_dirs p" and "truthy (target_dirs p)"
    and "\<not> truthy (extensions p)" and "\<not> truthy (exact_match p)"
  shows "validations_pass p
         \<and> fst (find_matching_items source_dir tree recursive p) =
             paths_where (\<lambda>f. \<not> file_matches_exclusion (normalized p) f)
               (files_seen source_dir tree recursive)"
proof -
  from assms have v: "validations_pass p"
    by (simp add: validations_pass_def has_inclusion_criteria_def)
  then have "fst (find_matching_items source_dir tree recursive p) =
      paths_where (select_file (normalized p)) (files_seen source_dir tree recursive)"
    by (rule find_files)
  moreover have "select_file (normalized p) = (\<lambda>f. \<not> file_matches_exclusion (normalized p) f)"
    using assms
    by (simp add: select_file_def normalized_fields truthy_normalize_exts fun_eq_iff)
  ultimately show ?thesis using v by simp
qed

theorem dirs_only_criteria_match_all_files_witness:
  "find_matching_items ''.''
     [File ''a.txt'', File ''b.bak'', Dir ''build'' [File ''out.o'']]
     True
     (default_params\<lparr>include_dirs := True, target_dirs := Some [''build''],
                     exclude_extensions := Some [''bak'']\<rparr>)
   = ([''./a.txt'', ''./build/out.o''], [''./build''])"
proof -
  let ?p = "default_params\<lparr>include_dirs := True, target_dirs := Some [''build''],
                     exclude_extensions := Some [''bak'']\<rparr>"
  let ?tree = "[File ''a.txt'', File ''b.bak'', Dir ''build'' [File ''out.o'']]"
  have h: "\<not> exclude_all_but ?p" "\<not> include_all_files ?p" "include_dirs ?p"
    "truthy (target_dirs ?p)" "\<not> truthy (extensions ?p)" "\<not> truthy (exact_match ?p)"
    by (simp_all add: default_params_def truthy_def)
  have f: "paths_where (\<lambda>f. \<not> file_matches_exclusion (normalized ?p) f)
               (files_seen ''.'' ?tree True) = [''./a.txt'', ''./build/out.o'']"
    by code_simp
  have d: "snd (find_matching_items ''.'' ?tree True ?p) = [''./build'']"
    by code_simp
  from dirs_only_criteria_match_all_files [OF h, of "''.''" ?tree True] f d
  show ?thesis by (simp add: prod_eq_iff)
qed

section \<open>Properties of the argument resolution\<close>

lemma basename_after_slash:
  assumes "CHR ''/'' \<notin> set b"
  shows "basename (x @ CHR ''/'' # b) = b"
proof -
  have "rfind (x @ CHR ''/'' # b) CHR ''/'' = int (length x)"
    using assms by (rule rfind_last)
  moreover have "nat (int (length x) + 1) = Suc (length x)" by simp
  ultimately have "basename (x @ CHR ''/'' # b) = drop (Suc (length x)) (x @ CHR ''/'' # b)"
    by (simp only: basename_def)
  then show ?thesis by simp
qed

lemma basename_join:
  assumes "CHR ''/'' \<notin> set b"
  shows "basename (join a b) = b"
proof -
  have nostart: "\<not> startswith b ''/''"
  proof
    assume "startswith b ''/''"
    then have "b \<noteq> []" "hd b = CHR ''/''" by (simp_all add: startswith_char)
    then have "CHR ''/'' \<in> set b" by (metis hd_in_set)
    with assms show False by simp
  qed
  show ?thesis
  proof (cases "a = []")
    case True
    with nostart assms show ?thesis by (simp add: join_def basename_def rfind_absent)
  next
    case False
    show ?thesis
    proof (cases "endswith a ''/''")
      case True
      then have "a \<noteq> []" "last a = CHR ''/''" by (simp_all add: endswith_char)
      then have a: "a = butlast a @ [CHR ''/'']" by (metis append_butlast_last_id)
      have "join a b = a @ b" using nostart True by (simp add: join_def)
      also have "\<dots> = (butlast a @ [CHR ''/'']) @ b" using a by simp
      finally have "join a b = butlast a @ CHR ''/'' # b" by simp
      moreover have "basename (butlast a @ CHR ''/'' # b) = b"
        using assms by (rule basename_after_slash)
      ultimately show ?thesis by (simp only:)
    next
      case noend: False
      have "join a b = a @ CHR ''/'' # b"
        using nostart False noend by (simp add: join_def)
      moreover have "basename (a @ CHR ''/'' # b) = b"
        using assms by (rule basename_after_slash)
      ultimately show ?thesis by (simp only:)
    qed
  qed
qed

lemma find_dirs:
  assumes "validations_pass p" and "\<forall>n\<in>set (dir_names tree). CHR ''/'' \<notin> set n"
  shows "snd (find_matching_items source_dir tree recursive p) =
           paths_where (select_dir (normalized p)) (dirs_seen source_dir tree recursive)"
proof (cases recursive)
  case True
  with assms(1) show ?thesis by (simp add: find_dirs_recursive)
next
  case False
  have "filter (\<lambda>d. select_dir (normalized p) (basename (join source_dir d))) (dir_names tree)
      = filter (select_dir (normalized p)) (dir_names tree)"
    using assms(2) by (intro filter_cong) (simp_all add: basename_join)
  with False assms(1) show ?thesis
    by (auto simp: find_matching_items_def validations_pass_def listdir_loop_eq dirs_seen_def
        paths_where_Pair)
qed

lemma find_invalid:
  "\<not> validations_pass p \<Longrightarrow> find_matching_items source_dir tree recursive p = ([], [])"
  by (auto simp: find_matching_items_def validations_pass_def)

lemma find_no_files:
  assumes "\<And>f. file_matches_exclusion (normalized p) f"
  shows "fst (find_matching_items source_dir tree recursive p) = []"
proof (cases "validations_pass p")
  case False
  then show ?thesis by (simp add: find_invalid)
next
  case True
  have "select_file (normalized p) = (\<lambda>f. False)"
    using assms by (simp add: select_file_def fun_eq_iff)
  with find_files [OF True, of source_dir tree recursive] show ?thesis
    by (simp add: paths_where_def)
qed

lemma empty_contains_excludes:
  assumes "[] \<in> set (or_empty (exclude_contains p))"
  shows "file_matches_exclusion (normalized p) f"
proof -
  have "str_in (lower []) (lower f)" by (simp add: lower_def str_in_empty)
  with assms show ?thesis
    unfolding file_matches_exclusion_flat normalized_fields by blast
qed

lemma validate_Inr: "validate st = Inr st' \<Longrightarrow> st' = st"
  by (auto simp: validate_def split: if_splits)

lemma init_locals_fields:
  "patterns_exclude (init_locals a) = patterns_exclude a"
  "patterns_excludeFiles (init_locals a) = patterns_excludeFiles a"
  "patterns_excludeDirs (init_locals a) = patterns_excludeDirs a"
  "patterns_override (init_locals a) = patterns_override a"
  "patterns_file (init_locals a) = patterns_file a"
  "no_recursive (init_locals a) = no_recursive a"
  "exclude_all_but (init_locals a) = exclude_all_but a"
  "extensions (init_locals a) = extensions a"
  "exact_match (init_locals a) = exact_match a"
  "include_dirs (init_locals a) = include_dirs a"
  "target_dirs (init_locals a) = target_dirs a"
  "contains_extension (init_locals a) = contains_extension a"
  "exclude_extensions (init_locals a) = exclude_extensions a"
  "exclude_exact (init_locals a) = exclude_exact a"
  "exclude_contains (init_locals a) = exclude_contains a"
  "exclude_dirs (init_locals a) = None"
  "include_all_files (init_locals a) = False"
  "include_all_dirs (init_locals a) = False"
  by (simp_all add: init_locals_def)

lemma main_resolve_with_patterns:
  assumes "main_resolve read_file args = Inr st"
    and "patterns_file args = Some file_path" and "file_path \<noteq> []"
    and "parse_patterns_file (read_file file_path) = Some fp"
  shows "st = apply_patterns fp (init_locals args)"
proof -
  from assms(2-4) have "load_patterns read_file (init_locals args)
      = Inr (apply_patterns fp (init_locals args))"
    by (simp add: load_patterns_def init_locals_fields)
  with assms(1) have "validate (apply_patterns fp (init_locals args)) = Inr st"
    by (simp add: main_resolve_def split: if_splits)
  then show ?thesis by (simp add: validate_Inr)
qed

lemma or_empty_Some: "or_empty (Some xs) = xs"
  by (simp add: or_empty_def)

lemma or_empty_None: "or_empty None = []"
  by (simp add: or_empty_def)

lemma apply_patterns_exclude_fields:
  "or_empty (exclude_extensions (apply_patterns_exclude fp st))
     = pat_extensions fp @ or_empty (exclude_extensions st)"
  "or_empty (exclude_exact (apply_patterns_exclude fp st))
     = pat_exact fp @ or_empty (exclude_exact st)"
  "or_empty (exclude_contains (apply_patterns_exclude fp st))
     = pat_contains fp @ or_empty (exclude_contains st)"
  "exclude_dirs (apply_patterns_exclude fp st)
     = (if pat_directories fp \<noteq> [] then Some (pat_directories fp) else exclude_dirs st)"
  "include_all_files (apply_patterns_exclude fp st)"
  "include_all_dirs (apply_patterns_exclude fp st)"
  "exclude_all_but (apply_patterns_exclude fp st) = exclude_all_but st"
  "no_recursive (apply_patterns_exclude fp st) = no_recursive st"
  by (simp_all add: apply_patterns_exclude_def Let_def or_empty_Some)

lemma apply_patterns_contains:
  assumes "patterns_exclude st \<or> patterns_excludeFiles st \<or> \<not> patterns_excludeDirs st"
  shows "or_empty (exclude_contains (apply_patterns fp st))
           = pat_contains fp @ or_empty (exclude_contains st)"
  using assms
  by (auto simp: apply_patterns_def apply_patterns_exclude_def apply_patterns_excludeFiles_def
      apply_patterns_normal_def Let_def or_empty_Some)

lemma star_line_classified:
  assumes "''*'' \<in> set (map clean_line ls)"
  shows "[] \<in> set (of_category Contains (classified ls))"
proof -
  have c: "classify ''*'' = (Contains, [])" by (simp add: classify_def)
  from assms have "''*'' \<in> set (filter (\<lambda>l. l \<noteq> []) (map clean_line ls))" by simp
  then have "classify ''*'' \<in> set (classified ls)"
    unfolding classified_def set_map by (rule imageI)
  with c have "(Contains, []) \<in> set (classified ls)" by simp
  then have "(Contains, []) \<in> set (filter (\<lambda>x. fst x = Contains) (classified ls))" by simp
  then have "snd (Contains, []) \<in> set (of_category Contains (classified ls))"
    unfolding of_category_def set_map by (rule imageI)
  then show ?thesis by simp
qed

text \<open>
  What the code does in normal mode: the directory patterns of the file are put in
  front of the directory names of the command line (or replace them under the override
  flag) and the contains patterns are put in front of \<open>exclude_contains\<close>; the
  extension patterns and the exact names of the file are used only when the override
  flag is set or the command line gave none, and are otherwise dropped.
\<close>

lemma normal_mode_resolution:
  assumes "\<not> patterns_exclude st" "\<not> patterns_excludeFiles st" "\<not> patterns_excludeDirs st"
  shows "or_empty (extensions (apply_patterns fp st)) =
           (if pat_extensions fp \<noteq> [] \<and> (patterns_override st \<or> \<not> truthy (extensions st))
            then pat_extensions fp else or_empty (extensions st))"
    and "or_empty (exact_match (apply_patterns fp st)) =
           (if pat_exact fp \<noteq> [] \<and> (patterns_override st \<or> \<not> truthy (exact_match st))
            then pat_exact fp else or_empty (exact_match st))"
    and "or_empty (target_dirs (apply_patterns fp st)) =
           (if pat_directories fp \<noteq> [] \<and> patterns_override st then pat_directories fp
            else pat_directories fp @ or_empty (target_dirs st))"
    and "or_empty (exclude_contains (apply_patterns fp st)) =
           pat_contains fp @ or_empty (exclude_contains st)"
  using assms
  by (auto simp: apply_patterns_def apply_patterns_normal_def Let_def or_empty_Some
      truthy_or_empty)

text \<open>
  C3 at the failing input: \<open>delete --extensions txt --exact-match x --include-dirs
  --target_dirs tmp --patterns-file p.txt\<close>, where the file holds the lines \<open>.bak\<close>,
  \<open>notes.txt\<close> and \<open>logs/\<close>. The directory pattern is added to the target directories;
  the extension pattern and the exact name of the file are not added.
\<close>

theorem normal_mode_drops_file_patterns:
  "(case main_resolve (\<lambda>path. Content [''.bak'', ''notes.txt'', ''logs/''])
           ((default_args ''delete'')
              \<lparr>extensions := Some [''txt''], exact_match := Some [''x''],
               include_dirs := True, target_dirs := Some [''tmp''],
               patterns_file := Some ''p.txt''\<rparr>) of
      Inl e \<Rightarrow> False
    | Inr st \<Rightarrow> extensions st = Some [''txt''] \<and> exact_match st = Some [''x'']
               \<and> target_dirs st = Some [''logs'', ''tmp''])"
  by code_simp

text \<open>
  C8, amended. With \<open>--patterns-exclude\<close> and a patterns file that parses, a
  resolution that succeeds puts every category of the file in front of the exclusion
  list of its kind (the directories become \<open>exclude_dirs\<close>) and sets
  \<open>include_all_files\<close> and \<open>include_all_dirs\<close>. The search that follows matches
  exactly the directories seen whose name is not excluded and, when \<open>--exclude-all-but\<close>
  is not given as well, exactly the files seen that match no exclusion criterion. The
  names of the directories listed in the source directory hold no slash, as the names
  of directory entries do.
\<close>

theorem patterns_exclude_mode:
  assumes "patterns_exclude args"
    and "patterns_file args = Some file_path" and "file_path \<noteq> []"
    and "parse_patterns_file (read_file file_path) = Some fp"
    and "main_resolve read_file args = Inr st"
    and "\<forall>n\<in>set (dir_names tree). CHR ''/'' \<notin> set n"
  shows "or_empty (exclude_extensions st) = pat_extensions fp @ or_empty (exclude_extensions args)
       \<and> or_empty (exclude_exact st) = pat_exact fp @ or_empty (exclude_exact args)
       \<and> or_empty (exclude_contains st) = pat_contains fp @ or_empty (exclude_contains args)
       \<and> or_empty (exclude_dirs st) = pat_directories fp
       \<and> include_all_files st \<and> include_all_dirs st
       \<and> snd (main_find source_dir tree st) =
            paths_where (\<lambda>d. d \<notin> set (pat_directories fp))
              (dirs_seen source_dir tree (\<not> no_recursive args))
       \<and> (\<not> exclude_all_but args \<longrightarrow>
            fst (main_find source_dir tree st) =
              paths_where (\<lambda>f. \<not> file_matches_exclusion (normalized st) f)
                (files_seen source_dir tree (\<not> no_recursive args)))"
proof -
  have st: "st = apply_patterns_exclude fp (init_locals args)"
    using main_resolve_with_patterns [OF assms(5) assms(2) assms(3) assms(4)] assms(1)
    by (simp add: apply_patterns_def init_locals_fields)
  have lists: "or_empty (exclude_extensions st) = pat_extensions fp @ or_empty (exclude_extensions args)"
    "or_empty (exclude_exact st) = pat_exact fp @ or_empty (exclude_exact args)"
    "or_empty (exclude_contains st) = pat_contains fp @ or_empty (exclude_contains args)"
    by (simp_all add: st apply_patterns_exclude_fields init_locals_fields)
  have dirs: "or_empty (exclude_dirs st) = pat_directories fp"
    by (simp add: st apply_patterns_exclude_fields init_locals_fields or_empty_Some or_empty_None)
  have flags: "include_all_files st" "include_all_dirs st"
    by (simp_all add: st apply_patterns_exclude_fields)
  have eab: "exclude_all_but st = exclude_all_but args"
    and rec: "no_recursive st = no_recursive args"
    by (simp_all add: st apply_patterns_exclude_fields init_locals_fields)
  from flags(1) have v: "validations_pass st"
    by (simp add: validations_pass_def has_inclusion_criteria_def)
  have sd: "select_dir (normalized st) = (\<lambda>d. d \<notin> set (pat_directories fp))"
    using flags(2) dirs by (simp add: select_dir_iff fun_eq_iff)
  have found_dirs: "snd (main_find source_dir tree st) =
            paths_where (\<lambda>d. d \<notin> set (pat_directories fp))
              (dirs_seen source_dir tree (\<not> no_recursive args))"
    using find_dirs [OF v assms(6), of source_dir "\<not> no_recursive st"] sd rec
    by (simp add: main_find_def)
  have found_files: "fst (main_find source_dir tree st) =
              paths_where (\<lambda>f. \<not> file_matches_exclusion (normalized st) f)
                (files_seen source_dir tree (\<not> no_recursive args))"
    if normal: "\<not> exclude_all_but args"
  proof -
    have sf: "select_file (normalized st) = (\<lambda>f. \<not> file_matches_exclusion (normalized st) f)"
      using normal flags(1) eab
      by (simp add: select_file_def normalized_fields file_matches_criteria_def fun_eq_iff)
    from find_files [OF v, of source_dir tree "\<not> no_recursive st"] sf rec
    show ?thesis by (simp add: main_find_def)
  qed
  from lists dirs flags found_dirs found_files show ?thesis by blast
qed

theorem patterns_exclude_mode_witness:
  "(case main_resolve (\<lambda>path. Content [''.bak'', ''secret.txt'', ''*draft'', ''logs/''])
           ((default_args ''delete'')
              \<lparr>patterns_file := Some ''keep.txt'', patterns_exclude := True,
               exclude_extensions := Some [''tmp'']\<rparr>) of
      Inl e \<Rightarrow> False
    | Inr st \<Rightarrow>
        exclude_extensions st = Some [''.bak'', ''tmp'']
        \<and> main_find ''.''
            [File ''a.txt'', File ''b.BAK'', File ''secret.txt'', File ''my_draft.md'',
             File ''c.tmp'', Dir ''logs'' [File ''x.log''], Dir ''src'' []] st
          = ([''./a.txt'', ''./logs/x.log''], [''./src'']))"
proof -
  let ?rd = "\<lambda>path::string. Content [''.bak'', ''secret.txt'', ''*draft'', ''logs/'']"
  let ?args = "(default_args ''delete'')
              \<lparr>patterns_file := Some ''keep.txt'', patterns_exclude := True,
               exclude_extensions := Some [''tmp'']\<rparr>"
  let ?tree = "[File ''a.txt'', File ''b.BAK'', File ''secret.txt'', File ''my_draft.md'',
             File ''c.tmp'', Dir ''logs'' [File ''x.log''], Dir ''src'' []]"
  let ?fp = "\<lparr>pat_extensions = [''.bak''], pat_directories = [''logs''],
              pat_exact = [''secret.txt''], pat_contains = [''draft'']\<rparr>"
  obtain st where st: "main_resolve ?rd ?args = Inr st"
    and ex: "exclude_extensions st = Some [''.bak'', ''tmp'']"
    and f: "paths_where (\<lambda>f. \<not> file_matches_exclusion (normalized st) f)
                (files_seen ''.'' ?tree (\<not> no_recursive ?args)) = [''./a.txt'', ''./logs/x.log'']"
  proof -
    have "(case main_resolve ?rd ?args of Inl e \<Rightarrow> False
           | Inr st \<Rightarrow> exclude_extensions st = Some [''.bak'', ''tmp'']
               \<and> paths_where (\<lambda>f. \<not> file_matches_exclusion (normalized st) f)
                (files_seen ''.'' ?tree (\<not> no_recursive ?args)) = [''./a.txt'', ''./logs/x.log''])"
      by code_simp
    with that show ?thesis by (auto split: sum.splits)
  qed
  have h1: "patterns_exclude ?args" by simp
  have h2: "patterns_file ?args = Some ''keep.txt''" by simp
  have h3: "''keep.txt'' \<noteq> []" by simp
  have h4: "parse_patterns_file (?rd ''keep.txt'') = Some ?fp" by code_simp
  have h6: "\<forall>n\<in>set (dir_names ?tree). CHR ''/'' \<notin> set n" by simp
  have n: "\<not> exclude_all_but ?args" by (simp add: default_args_def)
  have d: "paths_where (\<lambda>d. d \<notin> set (pat_directories ?fp))
                (dirs_seen ''.'' ?tree (\<not> no_recursive ?args)) = [''./src'']"
    by code_simp
  from patterns_exclude_mode [OF h1 h2 h3 h4 st h6, of "''.''"] n f d
  have "main_find ''.'' ?tree st = ([''./a.txt'', ''./logs/x.log''], [''./src''])"
    by (simp add: prod_eq_iff)
  with st ex show ?thesis by simp
qed

text \<open>
  C8 as it is worded fails when \<open>--exclude-all-but\<close> is given as well:
  \<open>include_all_files\<close> makes every file match the criteria, so the inverted selection
  takes no file, also one that matches no exclusion criterion.
\<close>

theorem patterns_exclude_with_exclude_all_but_counterexample:
  "(case main_resolve (\<lambda>path. Content [''.bak''])
           ((default_args ''delete'')
              \<lparr>patterns_file := Some ''keep.txt'', patterns_exclude := True,
               exclude_all_but := True\<rparr>) of
      Inl e \<Rightarrow> False
    | Inr st \<Rightarrow> \<not> file_matches_exclusion (normalized st) ''a.txt''
               \<and> fst (main_find ''.'' [File ''a.txt''] st) = [])"
  by code_simp

text \<open>
  C10. A patterns file whose only line is \<open>*\<close> parses to the one contains pattern
  \<open>''''\<close>. With the empty string in \<open>exclude_contains\<close>, \<open>file_matches_exclusion\<close> holds
  for every name and the search matches no file. So whenever \<open>main\<close> reads a patterns
  file with such a line in a mode that turns contains patterns into exclusions (every
  mode but \<open>--patterns-excludeDirs\<close>) and goes on to search, no file is matched.
\<close>

theorem star_line_excludes_every_file:
  "parse_patterns_file (Content [''*'']) = Some (empty_patterns\<lparr>pat_contains := [[]]\<rparr>)
   \<and> ([] \<in> set (or_empty (exclude_contains p)) \<longrightarrow>
        file_matches_exclusion (normalized p) f
        \<and> fst (find_matching_items source_dir tree recursive p) = [])
   \<and> (patterns_file args = Some file_path \<and> file_path \<noteq> []
        \<and> read_file file_path = Content ls \<and> ''*'' \<in> set (map clean_line ls)
        \<and> (patterns_exclude args \<or> patterns_excludeFiles args \<or> \<not> patterns_excludeDirs args)
        \<and> main_resolve read_file args = Inr st \<longrightarrow>
        fst (main_find source_dir tree st) = [])"
proof -
  have a: "parse_patterns_file (Content [''*'']) = Some (empty_patterns\<lparr>pat_contains := [[]]\<rparr>)"
    by code_simp
  have b: "file_matches_exclusion (normalized q) f
        \<and> fst (find_matching_items source_dir tree r q) = []"
    if "[] \<in> set (or_empty (exclude_contains q))" for q :: "'b params_scheme" and r
    using that empty_contains_excludes [of q] find_no_files [of q source_dir tree r] by blast
  have c: "fst (main_find source_dir tree st) = []"
    if pf: "patterns_file args = Some file_path" "file_path \<noteq> []"
      and rd: "read_file file_path = Content ls" and star: "''*'' \<in> set (map clean_line ls)"
      and mode: "patterns_exclude args \<or> patterns_excludeFiles args \<or> \<not> patterns_excludeDirs args"
      and res: "main_resolve read_file args = Inr st"
  proof -
    let ?fp = "parse_lines empty_patterns ls"
    have parse: "parse_patterns_file (read_file file_path) = Some ?fp"
      by (simp add: rd parse_patterns_file_def)
    have "pat_contains ?fp = of_category Contains (classified ls)"
      by (simp add: parse_lines_classified empty_patterns_def)
    with star have mem: "[] \<in> set (pat_contains ?fp)" by (simp only: star_line_classified)
    from main_resolve_with_patterns [OF res pf parse]
    have st: "st = apply_patterns ?fp (init_locals args)" .
    from mode have "or_empty (exclude_contains st)
        = pat_contains ?fp @ or_empty (exclude_contains (init_locals args))"
      unfolding st by (intro apply_patterns_contains) (simp add: init_locals_fields)
    with mem have "[] \<in> set (or_empty (exclude_contains st))" by simp
    then show ?thesis unfolding main_find_def using b by blast
  qed
  from a b [of p recursive] c show ?thesis by blast
qed

theorem star_line_excludes_every_file_witness:
  "(case main_resolve (\<lambda>path. Content [''.tmp'', '' * # everything''])
           ((default_args ''delete'')\<lparr>patterns_file := Some ''p.txt''\<rparr>) of
      Inl e \<Rightarrow> False
    | Inr st \<Rightarrow> exclude_contains st = Some [[]]
               \<and> fst (main_find ''.'' [File ''a.tmp'', Dir ''d'' [File ''b.tmp'']] st) = [])"
proof -
  let ?rd = "\<lambda>path::string. Content [''.tmp'', '' * # everything'']"
  let ?args = "(default_args ''delete'')\<lparr>patterns_file := Some ''p.txt''\<rparr>"
  obtain st where st: "main_resolve ?rd ?args = Inr st"
    and ex: "exclude_contains st = Some [[]]"
  proof -
    have "(case main_resolve ?rd ?args of Inl e \<Rightarrow> False
           | Inr st \<Rightarrow> exclude_contains st = Some [[]])"
      by code_simp
    with that show ?thesis by (auto split: sum.splits)
  qed
  have h: "patterns_file ?args = Some ''p.txt'' \<and> ''p.txt'' \<noteq> []
        \<and> ?rd ''p.txt'' = Content [''.tmp'', '' * # everything'']
        \<and> ''*'' \<in> set (map clean_line [''.tmp'', '' * # everything''])
        \<and> (patterns_exclude ?args \<or> patterns_excludeFiles ?args \<or> \<not> patterns_excludeDirs ?args)"
    by (simp add: default_args_def clean_line_def strip_def isspace_def)
  from star_line_excludes_every_file
         [of _ _ "''.''" "[File ''a.tmp'', Dir ''d'' [File ''b.tmp'']]" _ ?args "''p.txt''" ?rd
             "[''.tmp'', '' * # everything'']" st] h st
  have "fst (main_find ''.'' [File ''a.tmp'', Dir ''d'' [File ''b.tmp'']] st) = []"
    by blast
  with st ex show ?thesis by simp
qed

section \<open>Properties of the processing\<close>

lemma items_loop_eq:
  "items_loop P opr src dst is_dirs dry items (cnt, errs, fs) =
     (cnt + length (filter succeeded (outcomes P opr src dst is_dirs dry items fs)),
      errs @ List.map_filter failure (outcomes P opr src dst is_dirs dry items fs),
      final_fs P opr src dst is_dirs dry items fs)"
proof (induction items arbitrary: cnt errs fs)
  case Nil
  then show ?case by (simp add: List.map_filter_simps)
next
  case (Cons item items)
  obtain r fs' where t: "try_item P opr src dst is_dirs dry item fs = (r, fs')"
    by (cases "try_item P opr src dst is_dirs dry item fs")
  show ?case
  proof (cases r)
    case (Inl e)
    with t show ?thesis by (simp add: Cons.IH List.map_filter_simps)
  next
    case (Inr u)
    with t show ?thesis by (simp add: Cons.IH List.map_filter_simps)
  qed
qed

lemma outcomes_items: "map fst (outcomes P opr src dst is_dirs dry items fs) = items"
  by (induction items arbitrary: fs) simp_all

lemma outcomes_split:
  "length (filter succeeded os) + length (List.map_filter failure os) = length os"
proof (induction os)
  case Nil
  then show ?case by (simp add: List.map_filter_simps)
next
  case (Cons x os)
  obtain item r where x: "x = (item, r)" by (cases x)
  from Cons show ?case by (cases r) (simp_all add: x List.map_filter_simps)
qed

lemma try_item_dry_run:
  "snd (try_item P opr src dst is_dirs True item fs) = fs"
  by (simp add: try_item_def split: sum.splits)

lemma try_item_dry_run_ok:
  assumes "os_path_relpath P fs item src = Inr rel" and "opr = ''delete'' \<or> dst \<noteq> None"
  shows "try_item P opr src dst is_dirs True item fs = (Inr (), fs)"
  using assms by (auto simp: try_item_def join_dest_def split: sum.splits option.splits)

lemma final_fs_dry_run: "final_fs P opr src dst is_dirs True items fs = fs"
  by (induction items) (simp_all add: try_item_dry_run)

lemma outcomes_dry_run_ok:
  assumes "\<forall>item\<in>set items. \<exists>rel. os_path_relpath P fs item src = Inr rel"
    and "opr = ''delete'' \<or> dst \<noteq> None"
  shows "outcomes P opr src dst is_dirs True items fs = map (\<lambda>item. (item, Inr ())) items"
  using assms(1)
proof (induction items)
  case Nil
  then show ?case by simp
next
  case (Cons item items)
  then obtain rel where "os_path_relpath P fs item src = Inr rel" by auto
  then have "try_item P opr src dst is_dirs True item fs = (Inr (), fs)"
    using assms(2) by (rule try_item_dry_run_ok)
  with Cons show ?case by simp
qed

lemma try_item_relpath_raises:
  "os_path_relpath P fs item src = Inl e \<Longrightarrow>
   try_item P opr src dst is_dirs dry item fs = (Inl e, fs)"
  by (simp add: try_item_def)

lemma try_item_delete:
  "os_path_relpath P fs item src = Inr rel \<Longrightarrow>
   try_item P ''delete'' src dst is_dirs False item fs =
     (if is_dirs then shutil_rmtree P item fs else os_remove P item fs)"
  by (simp add: try_item_def)

lemma try_item_no_dest:
  "os_path_relpath P fs item src = Inr rel \<Longrightarrow> opr \<noteq> ''delete'' \<Longrightarrow>
   dry \<or> opr = ''copy'' \<or> opr = ''move'' \<Longrightarrow>
   try_item P opr src None is_dirs dry item fs =
     (Inl ''expected str, bytes or os.PathLike object, not NoneType'', fs)"
  by (auto simp: try_item_def join_dest_def)

lemma try_item_copy_parent_exists:
  "os_path_relpath P fs item src = Inr rel \<Longrightarrow>
   os_path_exists P fs (dirname (join d rel)) \<Longrightarrow>
   try_item P ''copy'' src (Some d) is_dirs False item fs =
     (if is_dirs then shutil_copytree P item (join d rel) fs
      else shutil_copy2 P item (join d rel) fs)"
  by (simp add: try_item_def join_dest_def ensure_parent_def)

lemma try_item_copy_makedirs_raises:
  "os_path_relpath P fs item src = Inr rel \<Longrightarrow>
   \<not> os_path_exists P fs (dirname (join d rel)) \<Longrightarrow>
   os_makedirs P (dirname (join d rel)) fs = (Inl e, fs1) \<Longrightarrow>
   try_item P ''copy'' src (Some d) is_dirs False item fs = (Inl e, fs1)"
  by (simp add: try_item_def join_dest_def ensure_parent_def)

lemma try_item_copy_makedirs_returns:
  "os_path_relpath P fs item src = Inr rel \<Longrightarrow>
   \<not> os_path_exists P fs (dirname (join d rel)) \<Longrightarrow>
   os_makedirs P (dirname (join d rel)) fs = (Inr u, fs1) \<Longrightarrow>
   try_item P ''copy'' src (Some d) is_dirs False item fs =
     (if is_dirs then shutil_copytree P item (join d rel) fs1
      else shutil_copy2 P item (join d rel) fs1)"
  by (simp add: try_item_def join_dest_def ensure_parent_def)

lemma try_item_move_parent_exists:
  "os_path_relpath P fs item src = Inr rel \<Longrightarrow>
   os_path_exists P fs (dirname (join d rel)) \<Longrightarrow>
   try_item P ''move'' src (Some d) is_dirs False item fs = shutil_move P item (join d rel) fs"
  by (simp add: try_item_def join_dest_def ensure_parent_def)

lemma try_item_move_makedirs_raises:
  "os_path_relpath P fs item src = Inr rel \<Longrightarrow>
   \<not> os_path_exists P fs (dirname (join d rel)) \<Longrightarrow>
   os_makedirs P (dirname (join d rel)) fs = (Inl e, fs1) \<Longrightarrow>
   try_item P ''move'' src (Some d) is_dirs False item fs = (Inl e, fs1)"
  by (simp add: try_item_def join_dest_def ensure_parent_def)

lemma try_item_move_makedirs_returns:
  "os_path_relpath P fs item src = Inr rel \<Longrightarrow>
   \<not> os_path_exists P fs (dirname (join d rel)) \<Longrightarrow>
   os_makedirs P (dirname (join d rel)) fs = (Inr u, fs1) \<Longrightarrow>
   try_item P ''move'' src (Some d) is_dirs False item fs = shutil_move P item (join d rel) fs1"
  by (simp add: try_item_def join_dest_def ensure_parent_def)

lemma try_item_other_operation:
  "os_path_relpath P fs item src = Inr rel \<Longrightarrow>
   opr \<noteq> ''delete'' \<Longrightarrow> opr \<noteq> ''copy'' \<Longrightarrow> opr \<noteq> ''move'' \<Longrightarrow>
   try_item P opr src dst is_dirs False item fs = (Inr (), fs)"
  by (simp add: try_item_def)

lemma process_items_Cons:
  "process_items P opr (item # items) src dst is_dirs dry fs =
     (case try_item P opr src dst is_dirs dry item fs of
        (Inl e, fs') \<Rightarrow>
          (case process_items P opr items src dst is_dirs dry fs' of
             (n, errs, fs'') \<Rightarrow> (n, (item, e) # errs, fs''))
      | (Inr u, fs') \<Rightarrow>
          (case process_items P opr items src dst is_dirs dry fs' of
             (n, errs, fs'') \<Rightarrow> (n + 1, errs, fs'')))"
proof -
  obtain r fs' where t: "try_item P opr src dst is_dirs dry item fs = (r, fs')"
    by (cases "try_item P opr src dst is_dirs dry item fs")
  show ?thesis
    by (cases r) (simp_all add: process_items_def items_loop_eq t List.map_filter_simps)
qed

text \<open>
  C4. For every operation and every list of items, \<open>process_items\<close> gives each item an
  outcome in turn, on the file system its predecessors left, whether or not an earlier
  item failed; it returns the number of items that succeeded and, in order, the pair of
  path and message of every item that failed, so the two add up to the number of
  items. An item fails exactly when a call made for it raises, and the message is that
  call's: \<open>os.path.relpath\<close> in every mode; \<open>os.remove\<close> or \<open>shutil.rmtree\<close> for
  \<open>delete\<close>; the join with a missing destination, \<open>os.makedirs\<close> for a missing parent
  directory, and \<open>shutil.copy2\<close>, \<open>shutil.copytree\<close> or \<open>shutil.move\<close> for \<open>copy\<close> and
  \<open>move\<close>. A failed item leaves the count as it is and the following items are still
  processed. When the middle one of three items cannot be deleted, the count is 2, the
  error list has the one pair of that item, and the other two are gone.
\<close>

theorem process_items_partial_failure:
  "process_items P opr items src dst is_dirs dry fs =
     (length (filter succeeded (outcomes P opr src dst is_dirs dry items fs)),
      List.map_filter failure (outcomes P opr src dst is_dirs dry items fs),
      final_fs P opr src dst is_dirs dry items fs)
   \<and> map fst (outcomes P opr src dst is_dirs dry items fs) = items
   \<and> fst (process_items P opr items src dst is_dirs dry fs)
       + length (fst (snd (process_items P opr items src dst is_dirs dry fs))) = length items
   \<and> (try_item P opr src dst is_dirs dry item fs = (Inl e, fs') \<longrightarrow>
        process_items P opr (item # items) src dst is_dirs dry fs =
          (fst (process_items P opr items src dst is_dirs dry fs'),
           (item, e) # fst (snd (process_items P opr items src dst is_dirs dry fs')),
           snd (snd (process_items P opr items src dst is_dirs dry fs'))))
   \<and> (try_item P opr src dst is_dirs dry item fs = (Inr u, fs') \<longrightarrow>
        process_items P opr (item # items) src dst is_dirs dry fs =
          (fst (process_items P opr items src dst is_dirs dry fs') + 1,
           fst (snd (process_items P opr items src dst is_dirs dry fs')),
           snd (snd (process_items P opr items src dst is_dirs dry fs'))))
   \<and> (os_path_relpath P fs item src = Inl e \<longrightarrow>
        try_item P opr src dst is_dirs dry item fs = (Inl e, fs))
   \<and> (os_path_relpath P fs item src = Inr rel \<longrightarrow>
        try_item P ''delete'' src dst is_dirs False item fs =
          (if is_dirs then shutil_rmtree P item fs else os_remove P item fs))
   \<and> (os_path_relpath P fs item src = Inr rel \<and> opr \<noteq> ''delete''
        \<and> (dry \<or> opr = ''copy'' \<or> opr = ''move'') \<longrightarrow>
        try_item P opr src None is_dirs dry item fs =
          (Inl ''expected str, bytes or os.PathLike object, not NoneType'', fs))
   \<and> (os_path_relpath P fs item src = Inr rel
        \<and> os_path_exists P fs (dirname (join d rel)) \<longrightarrow>
        try_item P ''copy'' src (Some d) is_dirs False item fs =
          (if is_dirs then shutil_copytree P item (join d rel) fs
           else shutil_copy2 P item (join d rel) fs)
        \<and> try_item P ''move'' src (Some d) is_dirs False item fs =
            shutil_move P item (join d rel) fs)
   \<and> (os_path_relpath P fs item src = Inr rel
        \<and> \<not> os_path_exists P fs (dirname (join d rel))
        \<and> os_makedirs P (dirname (join d rel)) fs = (Inl e, fs1) \<longrightarrow>
        try_item P ''copy'' src (Some d) is_dirs False item fs = (Inl e, fs1)
        \<and> try_item P ''move'' src (Some d) is_dirs False item fs = (Inl e, fs1))
   \<and> (os_path_relpath P fs item src = Inr rel
        \<and> \<not> os_path_exists P fs (dirname (join d rel))
        \<and> os_makedirs P (dirname (join d rel)) fs = (Inr u, fs1) \<longrightarrow>
        try_item P ''copy'' src (Some d) is_dirs False item fs =
          (if is_dirs then shutil_copytree P item (join d rel) fs1
           else shutil_copy2 P item (join d rel) fs1)
        \<and> try_item P ''move'' src (Some d) is_dirs False item fs =
            shutil_move P item (join d rel) fs1)
   \<and> (os_path_relpath P fs item src = Inr rel
        \<and> opr \<noteq> ''delete'' \<and> opr \<noteq> ''copy'' \<and> opr \<noteq> ''move'' \<longrightarrow>
        try_item P opr src dst is_dirs False item fs = (Inr (), fs))
   \<and> (os_path_relpath P fs item src = Inr rel \<and> (opr = ''delete'' \<or> dst \<noteq> None) \<longrightarrow>
        try_item P opr src dst is_dirs True item fs = (Inr (), fs))
   \<and> process_items disk_prims ''delete'' [''a'', ''b'', ''c''] ''.'' None False False
        \<lparr>present = [''a'', ''b'', ''c''], locked = [''b'']\<rparr>
       = (2, [(''b'', ''Permission denied'')], \<lparr>present = [''b''], locked = [''b'']\<rparr>)"
proof -
  let ?os = "outcomes P opr src dst is_dirs dry items fs"
  have a: "process_items P opr items src dst is_dirs dry fs =
     (length (filter succeeded ?os), List.map_filter failure ?os,
      final_fs P opr src dst is_dirs dry items fs)"
    by (simp add: process_items_def items_loop_eq)
  have b: "map fst ?os = items" by (rule outcomes_items)
  have "length ?os = length items" using b by (metis length_map)
  with outcomes_split [of ?os]
  have c: "fst (process_items P opr items src dst is_dirs dry fs)
       + length (fst (snd (process_items P opr items src dst is_dirs dry fs))) = length items"
    by (simp add: a)
  have step_fail: "try_item P opr src dst is_dirs dry item fs = (Inl e, fs') \<longrightarrow>
        process_items P opr (item # items) src dst is_dirs dry fs =
          (fst (process_items P opr items src dst is_dirs dry fs'),
           (item, e) # fst (snd (process_items P opr items src dst is_dirs dry fs')),
           snd (snd (process_items P opr items src dst is_dirs dry fs')))"
    by (simp add: process_items_Cons split_beta)
  have step_ok: "try_item P opr src dst is_dirs dry item fs = (Inr u, fs') \<longrightarrow>
        process_items P opr (item # items) src dst is_dirs dry fs =
          (fst (process_items P opr items src dst is_dirs dry fs') + 1,
           fst (snd (process_items P opr items src dst is_dirs dry fs')),
           snd (snd (process_items P opr items src dst is_dirs dry fs')))"
    by (simp add: process_items_Cons split_beta)
  have t1: "os_path_relpath P fs item src = Inl e \<longrightarrow>
        try_item P opr src dst is_dirs dry item fs = (Inl e, fs)"
    by (simp add: try_item_relpath_raises)
  have t2: "os_path_relpath P fs item src = Inr rel \<longrightarrow>
        try_item P ''delete'' src dst is_dirs False item fs =
          (if is_dirs then shutil_rmtree P item fs else os_remove P item fs)"
    using try_item_delete [of P fs item src rel dst is_dirs] by blast
  have t3: "os_path_relpath P fs item src = Inr rel \<and> opr \<noteq> ''delete''
        \<and> (dry \<or> opr = ''copy'' \<or> opr = ''move'') \<longrightarrow>
        try_item P opr src None is_dirs dry item fs =
          (Inl ''expected str, bytes or os.PathLike object, not NoneType'', fs)"
    using try_item_no_dest [of P fs item src rel opr dry is_dirs] by blast
  have t4: "os_path_relpath P fs item src = Inr rel
        \<and> os_path_exists P fs (dirname (join d rel)) \<longrightarrow>
        try_item P ''copy'' src (Some d) is_dirs False item fs =
          (if is_dirs then shutil_copytree P item (join d rel) fs
           else shutil_copy2 P item (join d rel) fs)
        \<and> try_item P ''move'' src (Some d) is_dirs False item fs =
            shutil_move P item (join d rel) fs"
    using try_item_copy_parent_exists [of P fs item src rel d is_dirs]
          try_item_move_parent_exists [of P fs item src rel d is_dirs] by blast
  have t5: "os_path_relpath P fs item src = Inr rel
        \<and> \<not> os_path_exists P fs (dirname (join d rel))
        \<and> os_makedirs P (dirname (join d rel)) fs = (Inl e, fs1) \<longrightarrow>
        try_item P ''copy'' src (Some d) is_dirs False item fs = (Inl e, fs1)
        \<and> try_item P ''move'' src (Some d) is_dirs False item fs = (Inl e, fs1)"
    using try_item_copy_makedirs_raises [of P fs item src rel d e fs1 is_dirs]
          try_item_move_makedirs_raises [of P fs item src rel d e fs1 is_dirs] by blast
  have t6: "os_path_relpath P fs item src = Inr rel
        \<and> \<not> os_path_exists P fs (dirname (join d rel))
        \<and> os_makedirs P (dirname (join d rel)) fs = (Inr u, fs1) \<longrightarrow>
        try_item P ''copy'' src (Some d) is_dirs False item fs =
          (if is_dirs then shutil_copytree P item (join d rel) fs1
           else shutil_copy2 P item (join d rel) fs1)
        \<and> try_item P ''move'' src (Some d) is_dirs False item fs =
            shutil_move P item (join d rel) fs1"
    using try_item_copy_makedirs_returns [of P fs item src rel d u fs1 is_dirs]
          try_item_move_makedirs_returns [of P fs item src rel d u fs1 is_dirs] by blast
  have t7: "os_path_relpath P fs item src = Inr rel
        \<and> opr \<noteq> ''delete'' \<and> opr \<noteq> ''copy'' \<and> opr \<noteq> ''move'' \<longrightarrow>
        try_item P opr src dst is_dirs False item fs = (Inr (), fs)"
    using try_item_other_operation [of P fs item src rel opr dst is_dirs] by blast
  have t8: "os_path_relpath P fs item src = Inr rel \<and> (opr = ''delete'' \<or> dst \<noteq> None) \<longrightarrow>
        try_item P opr src dst is_dirs True item fs = (Inr (), fs)"
    using try_item_dry_run_ok [of P fs item src rel opr dst is_dirs] by blast
  have d: "process_items disk_prims ''delete'' [''a'', ''b'', ''c''] ''.'' None False False
        \<lparr>present = [''a'', ''b'', ''c''], locked = [''b'']\<rparr>
       = (2, [(''b'', ''Permission denied'')], \<lparr>present = [''b''], locked = [''b'']\<rparr>)"
    by code_simp
  show ?thesis
    by (intro conjI) (rule a b c step_fail step_ok t1 t2 t3 t4 t5 t6 t7 t8 d)+
qed

text \<open>
  The witness runs a copy on a disk where creating a directory fails: the first item
  fails in \<open>os.makedirs\<close>, the second is missing, and both are recorded while the batch
  runs to its end; and a move where one of three items is missing and one is protected.
\<close>

theorem process_items_partial_failure_witness:
  "try_item (disk_prims\<lparr>os_makedirs := \<lambda>path d. (Inl ''No space left on device'', d)\<rparr>)
     ''copy'' ''.'' (Some ''out'') False False ''a'' \<lparr>present = [''a''], locked = []\<rparr>
     = (Inl ''No space left on device'', \<lparr>present = [''a''], locked = []\<rparr>)
   \<and> process_items (disk_prims\<lparr>os_makedirs := \<lambda>path d. (Inl ''No space left on device'', d)\<rparr>)
       ''copy'' [''a'', ''gone''] ''.'' (Some ''out'') False False
       \<lparr>present = [''a''], locked = []\<rparr>
     = (0, [(''a'', ''No space left on device''), (''gone'', ''No space left on device'')],
        \<lparr>present = [''a''], locked = []\<rparr>)
   \<and> process_items disk_prims ''move'' [''x'', ''gone'', ''y''] ''.'' (Some ''out'') False False
        \<lparr>present = [''x'', ''y'', ''out''], locked = [''y'']\<rparr>
     = (1, [(''gone'', ''No such file or directory''), (''y'', ''Permission denied'')],
        \<lparr>present = [''y'', ''out'', ''out/x''], locked = [''y'']\<rparr>)"
proof -
  let ?full = "disk_prims\<lparr>os_makedirs := \<lambda>path d. (Inl ''No space left on device'', d)\<rparr>"
  let ?small = "\<lparr>present = [''a''], locked = []\<rparr>"
  let ?d = "\<lparr>present = [''x'', ''y'', ''out''], locked = [''y'']\<rparr>"
  let ?items = "[''x'', ''gone'', ''y'']"
  note t = process_items_partial_failure
             [where P = ?full and fs = ?small and item = "''a''" and src = "''.''" and rel = "''a''"
                and d = "''out''" and e = "''No space left on device''" and ?fs1.0 = ?small
                and is_dirs = False]
  have h1: "os_path_relpath ?full ?small ''a'' ''.'' = Inr ''a''"
    by (simp add: disk_prims_def)
  have parent: "dirname (join ''out'' ''a'') = ''out''"
    by code_simp
  have h2: "\<not> os_path_exists ?full ?small (dirname (join ''out'' ''a''))"
    unfolding parent by (simp add: disk_prims_def)
  have h3: "os_makedirs ?full (dirname (join ''out'' ''a'')) ?small
            = (Inl ''No space left on device'', ?small)"
    by (simp add: disk_prims_def)
  note h = h1 h2 h3
  from t h have one: "try_item ?full ''copy'' ''.'' (Some ''out'') False False ''a'' ?small
      = (Inl ''No space left on device'', ?small)"
    by blast
  have "(length (filter succeeded (outcomes ?full ''copy'' ''.'' (Some ''out'') False False [''a'', ''gone''] ?small)),
      List.map_filter failure (outcomes ?full ''copy'' ''.'' (Some ''out'') False False [''a'', ''gone''] ?small),
      final_fs ?full ''copy'' ''.'' (Some ''out'') False False [''a'', ''gone''] ?small)
    = (0, [(''a'', ''No space left on device''), (''gone'', ''No space left on device'')], ?small)"
    by code_simp
  with process_items_partial_failure
         [of ?full "''copy''" "[''a'', ''gone'']" "''.''" "Some ''out''" False False ?small]
  have two: "process_items ?full ''copy'' [''a'', ''gone''] ''.'' (Some ''out'') False False ?small
      = (0, [(''a'', ''No space left on device''), (''gone'', ''No space left on device'')], ?small)"
    by simp
  have "(length (filter succeeded (outcomes disk_prims ''move'' ''.'' (Some ''out'') False False ?items ?d)),
      List.map_filter failure (outcomes disk_prims ''move'' ''.'' (Some ''out'') False False ?items ?d),
      final_fs disk_prims ''move'' ''.'' (Some ''out'') False False ?items ?d)
    = (1, [(''gone'', ''No such file or directory''), (''y'', ''Permission denied'')],
          \<lparr>present = [''y'', ''out'', ''out/x''], locked = [''y'']\<rparr>)"
    by code_simp
  with process_items_partial_failure
         [of disk_prims "''move''" ?items "''.''" "Some ''out''" False False ?d]
  have three: "process_items disk_prims ''move'' ?items ''.'' (Some ''out'') False False ?d
      = (1, [(''gone'', ''No such file or directory''), (''y'', ''Permission denied'')],
          \<lparr>present = [''y'', ''out'', ''out/x''], locked = [''y'']\<rparr>)"
    by simp
  from one two three show ?thesis by (intro conjI)
qed

lemma apply_patterns_operation:
  "args_operation (apply_patterns fp st) = args_operation st"
  "args_dest_dir (apply_patterns fp st) = args_dest_dir st"
  by (simp_all add: apply_patterns_def apply_patterns_exclude_def
      apply_patterns_excludeFiles_def apply_patterns_excludeDirs_def apply_patterns_normal_def
      Let_def)

lemma init_locals_operation:
  "args_operation (init_locals a) = args_operation a"
  "args_dest_dir (init_locals a) = args_dest_dir a"
  by (simp_all add: init_locals_def)

lemma load_patterns_operation:
  assumes "load_patterns read_file st0 = Inr st1"
  shows "args_operation st1 = args_operation st0" and "args_dest_dir st1 = args_dest_dir st0"
  using assms
  by (auto simp: load_patterns_def apply_patterns_operation split: option.splits if_splits)

lemma main_resolve_operation:
  assumes "main_resolve read_file args = Inr st"
  shows "args_operation st = args_operation args"
    and "args_dest_dir st = args_dest_dir args"
    and "args_operation args = ''copy'' \<or> args_operation args = ''move''
         \<Longrightarrow> args_dest_dir args \<noteq> None"
proof -
  from assms obtain st1 where l: "load_patterns read_file (init_locals args) = Inr st1"
    and v: "validate st1 = Inr st"
    and g: "\<not> (args_operation args \<in> set [''copy'', ''move'']
             \<and> (args_dest_dir args = None \<or> args_dest_dir args = Some []))"
    by (auto simp: main_resolve_def split: if_splits sum.splits)
  from v have eq: "st = st1" by (rule validate_Inr)
  from l show "args_operation st = args_operation args"
    by (simp add: eq load_patterns_operation init_locals_operation)
  from l show "args_dest_dir st = args_dest_dir args"
    by (simp add: eq load_patterns_operation init_locals_operation)
  show "args_dest_dir args \<noteq> None"
    if "args_operation args = ''copy'' \<or> args_operation args = ''move''"
    using that g by auto
qed

text \<open>
  C5. In a dry run \<open>process_items\<close> leaves the file system as it was, for every
  operation and every list of items. It counts every item and returns an empty error
  list on the calls that \<open>main\<close> makes: the operation is \<open>delete\<close>, \<open>copy\<close> or \<open>move\<close>,
  a resolution that succeeds has a destination directory for \<open>copy\<close> and \<open>move\<close>, and
  \<open>os.path.relpath\<close> returns for each item. The second conjunct states the same for
  any call where \<open>os.path.relpath\<close> returns and a destination is given unless the
  operation is \<open>delete\<close>.
\<close>

theorem dry_run_changes_nothing:
  "snd (snd (process_items P opr items src dst is_dirs True fs)) = fs
   \<and> ((\<forall>item\<in>set items. \<exists>rel. os_path_relpath P fs item src = Inr rel)
        \<and> (opr = ''delete'' \<or> dst \<noteq> None) \<longrightarrow>
        process_items P opr items src dst is_dirs True fs = (length items, [], fs))
   \<and> (main_resolve read_file args = Inr st
        \<and> args_operation args \<in> set [''delete'', ''copy'', ''move'']
        \<and> (\<forall>item\<in>set items. \<exists>rel. os_path_relpath P fs item src = Inr rel) \<longrightarrow>
        process_items P (args_operation st) items src (args_dest_dir st) is_dirs True fs
          = (length items, [], fs))"
proof -
  have a: "snd (snd (process_items Q opr' items src dst' is_dirs True fs)) = fs"
    for Q :: "'a prims" and opr' dst'
    by (simp add: process_items_def items_loop_eq final_fs_dry_run)
  have b: "process_items P opr' items src dst' is_dirs True fs = (length items, [], fs)"
    if "\<forall>item\<in>set items. \<exists>rel. os_path_relpath P fs item src = Inr rel"
      and "opr' = ''delete'' \<or> dst' \<noteq> None" for opr' dst'
  proof -
    have os: "outcomes P opr' src dst' is_dirs True items fs = map (\<lambda>item. (item, Inr ())) items"
      using that by (rule outcomes_dry_run_ok)
    have "filter succeeded (map (\<lambda>item. (item, Inr ())) items)
        = map (\<lambda>item. (item, Inr ())) items"
      by (induction items) simp_all
    moreover have "List.map_filter failure (map (\<lambda>item. (item, Inr ())) items) = []"
      by (induction items) (simp_all add: List.map_filter_simps)
    ultimately show ?thesis
      by (simp add: process_items_def items_loop_eq final_fs_dry_run os)
  qed
  have c: "process_items P (args_operation st) items src (args_dest_dir st) is_dirs True fs
          = (length items, [], fs)"
    if res: "main_resolve read_file args = Inr st"
      and choice: "args_operation args \<in> set [''delete'', ''copy'', ''move'']"
      and rel: "\<forall>item\<in>set items. \<exists>rel. os_path_relpath P fs item src = Inr rel"
  proof -
    note keep = main_resolve_operation [OF res]
    from choice have "args_operation args = ''delete''
        \<or> args_operation args = ''copy'' \<or> args_operation args = ''move''"
      by simp
    with keep(3) have "args_operation args = ''delete'' \<or> args_dest_dir args \<noteq> None"
      by blast
    with keep(1) keep(2) have "args_operation st = ''delete'' \<or> args_dest_dir st \<noteq> None"
      by simp
    with rel show ?thesis by (rule b)
  qed
  from a [of P opr dst] b [of opr dst] c show ?thesis by blast
qed

theorem dry_run_changes_nothing_witness:
  "(case main_resolve (\<lambda>path. Missing)
           ((default_args ''copy'')\<lparr>args_dest_dir := Some ''out'', extensions := Some [''txt'']\<rparr>) of
      Inl e \<Rightarrow> False
    | Inr st \<Rightarrow>
        process_items disk_prims (args_operation st) [''a'', ''b'', ''missing''] ''.''
          (args_dest_dir st) False True \<lparr>present = [''a'', ''b''], locked = [''b'']\<rparr>
        = (3, [], \<lparr>present = [''a'', ''b''], locked = [''b'']\<rparr>))
   \<and> process_items disk_prims ''delete'' [''a'', ''b''] ''.'' None False True
        \<lparr>present = [''a'', ''b''], locked = [''b'']\<rparr>
     = (2, [], \<lparr>present = [''a'', ''b''], locked = [''b'']\<rparr>)"
proof -
  let ?rd = "\<lambda>path::string. Missing"
  let ?args = "(default_args ''copy'')\<lparr>args_dest_dir := Some ''out'', extensions := Some [''txt'']\<rparr>"
  let ?d = "\<lparr>present = [''a'', ''b''], locked = [''b'']\<rparr>"
  let ?items = "[''a'', ''b'', ''missing'']"
  obtain st where st: "main_resolve ?rd ?args = Inr st"
  proof -
    have "(case main_resolve ?rd ?args of Inl e \<Rightarrow> False | Inr st \<Rightarrow> True)"
      by code_simp
    with that show ?thesis by (auto split: sum.splits)
  qed
  have h: "args_operation ?args \<in> set [''delete'', ''copy'', ''move'']
        \<and> (\<forall>item\<in>set ?items. \<exists>rel. os_path_relpath disk_prims ?d item ''.'' = Inr rel)"
    by (simp add: disk_prims_def default_args_def)
  from dry_run_changes_nothing
         [where P = disk_prims and items = ?items and src = "''.''" and fs = ?d
            and read_file = ?rd and args = ?args and st = st and is_dirs = False] st h
  have one: "process_items disk_prims (args_operation st) ?items ''.'' (args_dest_dir st)
      False True ?d = (length ?items, [], ?d)"
    by blast
  have h2: "(\<forall>item\<in>set [''a'', ''b'']. \<exists>rel. os_path_relpath disk_prims ?d item ''.'' = Inr rel)
        \<and> (''delete'' = ''delete'' \<or> (None :: string option) \<noteq> None)"
    by (simp add: disk_prims_def)
  from dry_run_changes_nothing
         [where P = disk_prims and opr = "''delete''" and items = "[''a'', ''b'']"
            and src = "''.''" and dst = None and fs = ?d and is_dirs = False] h2
  have two: "process_items disk_prims ''delete'' [''a'', ''b''] ''.'' None False True ?d
      = (length [''a'', ''b''], [], ?d)"
    by blast
  from st one two show ?thesis by simp
qed

end
